theory Spec2Isabelle
  imports Complex_Main
begin

section \<open>JavaScript values and string helpers\<close>

text \<open>
  A JavaScript string is modelled as a \<^typ>\<open>string\<close>: a list of code units, of which the
  model has the Latin-1 range. A decoded JSON document is a \<open>json\<close> value; the value
  \<^verbatim>\<open>undefined\<close> (a missing property) is \<open>None\<close> of \<open>json option\<close>. An object is the
  list of its own properties, keys distinct (the decoder resolves duplicates).
\<close>

datatype json =
    JNull
  | JBool bool
  | JNum rat
  | JStr string
  | JArr "json list"
  | JObj "(string \<times> json) list"

text \<open>A thrown value: an \<^verbatim>\<open>Error\<close> object with its message, or any other value, with its
  \<^verbatim>\<open>String(...)\<close> conversion.\<close>

datatype thrown = ErrorObj string | NonError string

text \<open>Truthiness of a value, as \<^verbatim>\<open>if (v)\<close> and \<^verbatim>\<open>v || w\<close> test it.\<close>

fun truthy :: "json option \<Rightarrow> bool" where
  "truthy None = False"
| "truthy (Some JNull) = False"
| "truthy (Some (JBool b)) = b"
| "truthy (Some (JNum n)) = (n \<noteq> 0)"
| "truthy (Some (JStr s)) = (s \<noteq> [])"
| "truthy (Some (JArr xs)) = True"
| "truthy (Some (JObj kvs)) = True"

text \<open>\<^verbatim>\<open>v.k\<close> for one of the property names this code reads (\<^verbatim>\<open>choices\<close>, \<^verbatim>\<open>delta\<close>,
  \<^verbatim>\<open>content\<close>) on a value that is neither null nor undefined: only an object has them.\<close>

fun field :: "json \<Rightarrow> string \<Rightarrow> json option" where
  "field (JObj kvs) k = map_of kvs k"
| "field v k = None"

text \<open>\<^verbatim>\<open>v[0]\<close> on a value that is neither null nor undefined.\<close>

fun index0 :: "json \<Rightarrow> json option" where
  "index0 (JArr xs) = (case xs of [] \<Rightarrow> None | x # _ \<Rightarrow> Some x)"
| "index0 (JStr s) = (case s of [] \<Rightarrow> None | c # _ \<Rightarrow> Some (JStr [c]))"
| "index0 (JObj kvs) = map_of kvs ''0''"
| "index0 v = None"

text \<open>Optional chaining \<^verbatim>\<open>v?.k\<close> and \<^verbatim>\<open>v?.[0]\<close>: undefined when \<open>v\<close> is null or undefined.\<close>

fun opt_field :: "json option \<Rightarrow> string \<Rightarrow> json option" where
  "opt_field None k = None"
| "opt_field (Some JNull) k = None"
| "opt_field (Some v) k = field v k"

fun opt_index0 :: "json option \<Rightarrow> json option" where
  "opt_index0 None = None"
| "opt_index0 (Some JNull) = None"
| "opt_index0 (Some v) = index0 v"

text \<open>\<^verbatim>\<open>String.prototype.trim\<close>: the white space among the model's code units.\<close>

definition is_space :: "char \<Rightarrow> bool" where
  "is_space c = (of_char c \<in> {9, 10, 11, 12, 13, 32, 160 :: nat})"

definition trim :: "string \<Rightarrow> string" where
  "trim s = rev (dropWhile is_space (rev (dropWhile is_space s)))"

definition startsWith :: "string \<Rightarrow> string \<Rightarrow> bool" where
  "startsWith s p = (take (length p) s = p)"

text \<open>\<^verbatim>\<open>s.includes(p)\<close>: \<open>p\<close> occurs in \<open>s\<close> at some position.\<close>

fun str_includes :: "string \<Rightarrow> string \<Rightarrow> bool" where
  "str_includes [] p = (p = [])"
| "str_includes (c # s) p = (startsWith (c # s) p \<or> str_includes s p)"

text \<open>\<^verbatim>\<open>s.split('\n')\<close>: never empty; the last element is what follows the last newline.\<close>

fun split_nl :: "string \<Rightarrow> string list" where
  "split_nl [] = ['''']"
| "split_nl (c # s) =
     (if c = CHR 0x0A then [] # split_nl s
      else (case split_nl s of [] \<Rightarrow> [c # []] | l # ls \<Rightarrow> (c # l) # ls))"

section \<open>The transformed stream of POST /api/chat-completion-streaming\<close>

text \<open>
  The events the route serialises as \<^verbatim>\<open>data: <json>\n\n\<close>. The wire format has four tags;
  \<open>route.ts\<close> builds \<^verbatim>\<open>chat_id\<close>, \<^verbatim>\<open>content\<close> and \<^verbatim>\<open>done\<close> events, and has no place that
  builds an \<^verbatim>\<open>error\<close> event. The \<^verbatim>\<open>data\<close> of a content event is whatever value the
  route found truthy, a string in the usual case.
\<close>

datatype canonical_event =
    ChatIdEvent string
  | ContentEvent json
  | DoneEvent string
  | ErrorEvent string

text \<open>One \<^verbatim>\<open>await reader.read()\<close> of the provider stream that does not report \<^verbatim>\<open>done\<close>:
  a chunk (already decoded: the streaming decoder distributes over concatenation), or a
  rejection, which lands in the \<^verbatim>\<open>catch\<close> of \<open>start\<close>. The end of the list is \<^verbatim>\<open>done\<close>.\<close>

datatype read = Chunk string | ReadThrows thrown

text \<open>How \<open>start\<close> leaves the controller: \<^verbatim>\<open>controller.close()\<close> or
  \<^verbatim>\<open>controller.error(error)\<close>.\<close>

datatype stream_end = Closed | Errored thrown

record sse_output =
  events :: "canonical_event list"
  ending :: stream_end

text \<open>The \<^verbatim>\<open>try\<close> block of a data line: \<^verbatim>\<open>JSON.parse(data)\<close> (the decoder is the parameter
  \<open>parse\<close>, \<open>None\<close> when it throws), then
  \<^verbatim>\<open>json.choices?.[0]?.delta?.content || json.content || ''\<close>. Reading \<^verbatim>\<open>json.choices\<close> of
  \<^verbatim>\<open>null\<close> throws a TypeError. \<open>None\<close> is "the block threw".\<close>

definition try_content :: "(string \<Rightarrow> json option) \<Rightarrow> string \<Rightarrow> json option" where
  "try_content parse data =
     (case parse data of
        None \<Rightarrow> None
      | Some JNull \<Rightarrow> None
      | Some json \<Rightarrow>
          (let d = opt_field (opt_field (opt_index0 (field json ''choices'')) ''delta'') ''content''
           in if truthy d then d
              else (let c = field json ''content''
                    in if truthy c then c else Some (JStr ''''))))"

text \<open>The events of one data line whose payload is not the sentinel: the content found,
  when truthy; in the \<^verbatim>\<open>catch\<close>, the payload itself, when non-empty.\<close>

definition data_events :: "(string \<Rightarrow> json option) \<Rightarrow> string \<Rightarrow> canonical_event list" where
  "data_events parse data =
     (case try_content parse data of
        Some content \<Rightarrow> (if truthy (Some content) then [ContentEvent content] else [])
      | None \<Rightarrow> (if data \<noteq> [] then [ContentEvent (JStr data)] else []))"

text \<open>\<^verbatim>\<open>for (const line of lines)\<close>: blank lines and lines without the prefix are passed
  over, the sentinel \<^verbatim>\<open>[DONE]\<close> breaks out of the loop.\<close>

fun process_lines :: "(string \<Rightarrow> json option) \<Rightarrow> string list \<Rightarrow> canonical_event list" where
  "process_lines parse [] = []"
| "process_lines parse (line # rest) =
     (if trim line = [] then process_lines parse rest
      else if startsWith line ''data: '' then
        (let data = trim (drop 6 line)
         in if data = ''[DONE]'' then []
            else data_events parse data @ process_lines parse rest)
      else process_lines parse rest)"

text \<open>The body of \<^verbatim>\<open>while (true)\<close> for one chunk: the events enqueued and the new buffer.\<close>

definition on_chunk ::
  "(string \<Rightarrow> json option) \<Rightarrow> string \<Rightarrow> string \<Rightarrow> canonical_event list \<times> string" where
  "on_chunk parse buffer chunk =
     (let buffer1 = buffer @ chunk
      in if str_includes buffer1 ''data: '' then
           (let lines = split_nl buffer1
            in (process_lines parse (butlast lines), last lines))
         else
           (let content = buffer1
            in (if content \<noteq> [] then [ContentEvent (JStr content)] else [], [])))"

text \<open>The loop: the events enqueued, and the value thrown if a read rejected.\<close>

fun read_loop ::
  "(string \<Rightarrow> json option) \<Rightarrow> string \<Rightarrow> read list \<Rightarrow> canonical_event list \<times> thrown option" where
  "read_loop parse buffer [] = ([], None)"
| "read_loop parse buffer (ReadThrows e # rest) = ([], Some e)"
| "read_loop parse buffer (Chunk chunk # rest) =
     (case on_chunk parse buffer chunk of
        (evs, buffer') \<Rightarrow>
          (case read_loop parse buffer' rest of (evs', r) \<Rightarrow> (evs @ evs', r)))"

text \<open>\<open>start(controller)\<close> of \<open>transformedStream\<close>: the chat id event when \<^verbatim>\<open>chatId\<close> is
  truthy, the loop, then the done event with the \<^verbatim>\<open>responseId\<close> that \<^verbatim>\<open>crypto.randomUUID()\<close>
  drew for this stream and \<^verbatim>\<open>close\<close>; or, from the \<^verbatim>\<open>catch\<close>, \<^verbatim>\<open>controller.error\<close>.
  \<open>sentDone\<close> is false when it is tested. \<open>events\<close> lists what was enqueued, in order;
  \<^verbatim>\<open>controller.enqueue\<close> is taken not to throw (the consumer does not cancel).\<close>

definition chat_id_events :: "string option \<Rightarrow> canonical_event list" where
  "chat_id_events chatId =
     (case chatId of None \<Rightarrow> [] | Some c \<Rightarrow> (if c \<noteq> [] then [ChatIdEvent c] else []))"

definition transformedStream ::
  "(string \<Rightarrow> json option) \<Rightarrow> string option \<Rightarrow> string \<Rightarrow> read list \<Rightarrow> sse_output" where
  "transformedStream parse chatId responseId reads =
     (let sentDone = False
      in case read_loop parse [] reads of
           (evs, None) \<Rightarrow>
             \<lparr>events = chat_id_events chatId @ evs @ (if \<not> sentDone then [DoneEvent responseId] else []),
              ending = Closed\<rparr>
         | (evs, Some e) \<Rightarrow>
             \<lparr>events = chat_id_events chatId @ evs, ending = Errored e\<rparr>)"

text \<open>The terminal events of the protocol, and the strings of the content events.\<close>

fun is_terminal :: "canonical_event \<Rightarrow> bool" where
  "is_terminal (DoneEvent r) = True"
| "is_terminal (ErrorEvent m) = True"
| "is_terminal e = False"

fun is_error_event :: "canonical_event \<Rightarrow> bool" where
  "is_error_event (ErrorEvent m) = True"
| "is_error_event e = False"

fun content_text :: "canonical_event list \<Rightarrow> string" where
  "content_text [] = []"
| "content_text (ContentEvent (JStr s) # es) = s @ content_text es"
| "content_text (e # es) = content_text es"

section \<open>The LM Studio provider: the tool loop of executeRequest\<close>

text \<open>
  What the OpenAI client returns. A missing or null property is \<open>None\<close>. Token counts are
  the numbers the backend reports.
\<close>

record completion_usage =
  prompt_tokens :: "int option"
  completion_tokens :: "int option"
  total_tokens :: "int option"

record tool_call =
  call_id :: string
  function_name :: string
  function_arguments :: string

record completion_message =
  message_content :: "string option"
  tool_calls :: "tool_call list option"

text \<open>\<open>choices\<close> lists the message of each choice; \<^verbatim>\<open>choices[0]?.message\<close> is its head.\<close>

record completion =
  choices :: "completion_message list"
  usage :: "completion_usage option"

text \<open>The conversation: the messages of the request, the assistant turn that carries the
  tool calls, and one \<^verbatim>\<open>tool\<close> message per recorded invocation. The content of a tool
  message is \<^verbatim>\<open>JSON.stringify(resultContent)\<close>; the model keeps \<open>resultContent\<close>.\<close>

datatype result_content =
    Output "json option"
  | ErrorPayload string string

datatype message =
    Message string string
  | AssistantToolCalls "tool_call list"
  | ToolMessage string result_content

record tool =
  tool_id :: string
  tool_description :: string
  tool_parameters :: json
  usageControl :: "string option"

record provider_request =
  model :: string
  systemPrompt :: "string option"
  request_context :: "string option"
  messages :: "message list option"
  tools :: "tool list option"
  stream :: bool

text \<open>What \<open>executeTool\<close> resolves with.\<close>

record tool_result =
  success :: bool
  result_output :: "json option"
  result_error :: "string option"

datatype segment_type = ModelSegment | ToolSegment

record time_segment =
  segment_type :: segment_type
  segment_name :: string
  segment_startTime :: nat
  segment_endTime :: nat
  segment_duration :: nat

text \<open>An element of \<open>toolCalls\<close>. The two ISO strings are kept as the instants they print.\<close>

record tool_call_record =
  record_name :: string
  record_arguments :: json
  record_startTime :: nat
  record_endTime :: nat
  record_duration :: nat
  record_result :: result_content
  record_success :: bool

text \<open>What the callback of \<^verbatim>\<open>toolCallsInResponse.map\<close> resolves with, when not \<^verbatim>\<open>null\<close>.\<close>

record tool_execution =
  exec_toolCall :: tool_call
  exec_toolName :: string
  exec_toolParams :: json
  exec_result :: tool_result
  exec_startTime :: nat
  exec_endTime :: nat
  exec_duration :: nat

record token_usage =
  tokens_input :: int
  tokens_output :: int
  tokens_total :: int

record cost_breakdown =
  cost_input :: rat
  cost_output :: rat
  cost_total :: rat

text \<open>A chunk of a streamed completion: \<^verbatim>\<open>chunk.choices[0]?.delta?.content\<close> and
  \<^verbatim>\<open>chunk.usage\<close>.\<close>

record completion_chunk =
  delta_content :: "string option"
  chunk_usage :: "completion_usage option"

text \<open>One step of \<^verbatim>\<open>for await (const chunk of stream)\<close> that does not end it: a chunk,
  after so many milliseconds, or a rejection. The end of the list ends the iteration.\<close>

datatype stream_item = StreamChunk completion_chunk nat | StreamThrows thrown

text \<open>
  The collaborators of the provider, which are not part of this file of the repository:
  the backend (\<^verbatim>\<open>lmstudio.chat.completions.create\<close>, given the messages of the payload; the
  rest of the payload is fixed for a request; \<open>create_stream\<close> when \<^verbatim>\<open>stream: true\<close>),
  \<open>calculateCost\<close>, \<^verbatim>\<open>JSON.parse\<close>, \<open>prepareToolExecution\<close>
  (for the request at hand; it returns \<open>toolParams\<close> and \<open>executionParams\<close>) and
  \<open>executeTool\<close>. \<open>Inl\<close> is a thrown value or a rejection. An awaited call also tells how
  many milliseconds of \<^verbatim>\<open>Date.now()\<close> pass before it settles; synchronous code takes none.
\<close>

record env =
  create :: "message list \<Rightarrow> (thrown + completion) \<times> nat"
  create_stream :: "message list \<Rightarrow> (thrown + stream_item list) \<times> nat"
  calculateCost :: "string \<Rightarrow> int option \<Rightarrow> int option \<Rightarrow> cost_breakdown"
  json_parse :: "string \<Rightarrow> thrown + json"
  prepareToolExecution :: "tool \<Rightarrow> json \<Rightarrow> thrown + (json \<times> json)"
  executeTool :: "string \<Rightarrow> json \<Rightarrow> (thrown + tool_result) \<times> nat"

text \<open>\<^verbatim>\<open>error instanceof Error ? error.message : 'Tool execution failed'\<close>\<close>

definition error_message :: "thrown \<Rightarrow> string" where
  "error_message err = (case err of ErrorObj m \<Rightarrow> m | NonError v \<Rightarrow> ''Tool execution failed'')"

text \<open>\<^verbatim>\<open>request.tools?.find((t) => t.id === toolName)\<close>\<close>

definition find_tool :: "tool list option \<Rightarrow> string \<Rightarrow> tool option" where
  "find_tool ts toolName =
     (case ts of None \<Rightarrow> None | Some l \<Rightarrow> find (\<lambda>t. tool_id t = toolName) l)"

text \<open>The value the \<^verbatim>\<open>catch\<close> of the callback returns.\<close>

definition failed_execution :: "tool_call \<Rightarrow> thrown \<Rightarrow> nat \<Rightarrow> nat \<Rightarrow> tool_execution" where
  "failed_execution tc err toolCallStartTime toolCallEndTime =
     \<lparr>exec_toolCall = tc, exec_toolName = function_name tc, exec_toolParams = JObj [],
      exec_result =
        \<lparr>success = False, result_output = None, result_error = Some (error_message err)\<rparr>,
      exec_startTime = toolCallStartTime, exec_endTime = toolCallEndTime,
      exec_duration = toolCallEndTime - toolCallStartTime\<rparr>"

text \<open>The callback for one tool call, started at \<open>toolCallStartTime\<close>. \<open>None\<close> is
  \<^verbatim>\<open>return null\<close>. The arguments are decoded before the tool is looked up.\<close>

definition run_tool_call ::
  "env \<Rightarrow> tool list option \<Rightarrow> nat \<Rightarrow> tool_call \<Rightarrow> tool_execution option" where
  "run_tool_call e ts toolCallStartTime tc =
     (case json_parse e (function_arguments tc) of
        Inl err \<Rightarrow> Some (failed_execution tc err toolCallStartTime toolCallStartTime)
      | Inr toolArgs \<Rightarrow>
          (case find_tool ts (function_name tc) of
             None \<Rightarrow> None
           | Some t \<Rightarrow>
               (case prepareToolExecution e t toolArgs of
                  Inl err \<Rightarrow> Some (failed_execution tc err toolCallStartTime toolCallStartTime)
                | Inr (params, executionParams) \<Rightarrow>
                    (case executeTool e (function_name tc) executionParams of
                       (Inl err, d) \<Rightarrow>
                         Some (failed_execution tc err toolCallStartTime (toolCallStartTime + d))
                     | (Inr r, d) \<Rightarrow>
                         Some \<lparr>exec_toolCall = tc, exec_toolName = function_name tc,
                               exec_toolParams = params, exec_result = r,
                               exec_startTime = toolCallStartTime,
                               exec_endTime = toolCallStartTime + d,
                               exec_duration = (toolCallStartTime + d) - toolCallStartTime\<rparr>))))"

text \<open>The variables of the non-streaming path, and the clock \<open>now\<close> that
  \<^verbatim>\<open>Date.now()\<close> reads.\<close>

record loop_state =
  currentResponse :: completion
  content :: string
  tokens :: token_usage
  toolCalls :: "tool_call_record list"
  toolResults :: "json option list"
  currentMessages :: "message list"
  iterationCount :: nat
  modelTime :: nat
  toolsTime :: nat
  timeSegments :: "time_segment list"
  now :: nat

text \<open>\<^verbatim>\<open>x || 0\<close> on a token count.\<close>

definition or_zero :: "int option \<Rightarrow> int" where
  "or_zero x = (case x of None \<Rightarrow> 0 | Some n \<Rightarrow> n)"

text \<open>\<^verbatim>\<open>currentResponse.choices[0]?.message?.content\<close> and
  \<^verbatim>\<open>currentResponse.choices[0]?.message?.tool_calls\<close>\<close>

definition first_content :: "completion \<Rightarrow> string option" where
  "first_content r = (case choices r of [] \<Rightarrow> None | m # _ \<Rightarrow> message_content m)"

definition first_tool_calls :: "completion \<Rightarrow> tool_call list option" where
  "first_tool_calls r = (case choices r of [] \<Rightarrow> None | m # _ \<Rightarrow> tool_calls m)"

text \<open>\<^verbatim>\<open>if (currentResponse.choices[0]?.message?.content) content = ...\<close>\<close>

definition updated_content :: "string \<Rightarrow> completion \<Rightarrow> string" where
  "updated_content c r =
     (case first_content r of None \<Rightarrow> c | Some s \<Rightarrow> (if s \<noteq> [] then s else c))"

text \<open>The content of the tool message of one execution.\<close>

definition resultContent :: "tool_execution \<Rightarrow> result_content" where
  "resultContent ex =
     (if success (exec_result ex) then Output (result_output (exec_result ex))
      else ErrorPayload
             (case result_error (exec_result ex) of
                None \<Rightarrow> ''Tool execution failed''
              | Some m \<Rightarrow> (if m \<noteq> [] then m else ''Tool execution failed''))
             (exec_toolName ex))"

text \<open>What the body of \<^verbatim>\<open>for (const settledResult of executionResults)\<close> pushes for
  one execution: the segment, the element of \<open>toolCalls\<close>, the tool message.\<close>

definition tool_segment :: "tool_execution \<Rightarrow> time_segment" where
  "tool_segment ex =
     \<lparr>segment_type = ToolSegment, segment_name = exec_toolName ex,
      segment_startTime = exec_startTime ex, segment_endTime = exec_endTime ex,
      segment_duration = exec_duration ex\<rparr>"

definition call_record :: "tool_execution \<Rightarrow> tool_call_record" where
  "call_record ex =
     \<lparr>record_name = exec_toolName ex, record_arguments = exec_toolParams ex,
      record_startTime = exec_startTime ex, record_endTime = exec_endTime ex,
      record_duration = exec_duration ex, record_result = resultContent ex,
      record_success = success (exec_result ex)\<rparr>"

definition tool_message :: "tool_execution \<Rightarrow> message" where
  "tool_message ex = ToolMessage (call_id (exec_toolCall ex)) (resultContent ex)"

text \<open>The body of that loop. Every promise of the batch is fulfilled, since the callback
  catches what its \<^verbatim>\<open>try\<close> throws; \<open>None\<close> is the \<^verbatim>\<open>null\<close> that the loop passes over.\<close>

fun record_settled :: "loop_state \<Rightarrow> tool_execution option \<Rightarrow> loop_state" where
  "record_settled st None = st"
| "record_settled st (Some ex) =
     st\<lparr>timeSegments := timeSegments st @ [tool_segment ex],
        toolResults :=
          (if success (exec_result ex) then toolResults st @ [result_output (exec_result ex)]
           else toolResults st),
        toolCalls := toolCalls st @ [call_record ex],
        currentMessages := currentMessages st @ [tool_message ex]\<rparr>"

text \<open>The instant at which \<^verbatim>\<open>Promise.allSettled\<close> resolves: when the last callback has
  settled. Its array keeps the order of the promises it was given.\<close>

fun settled_at :: "nat \<Rightarrow> tool_execution option list \<Rightarrow> nat" where
  "settled_at t [] = t"
| "settled_at t (None # rs) = settled_at t rs"
| "settled_at t (Some ex # rs) = settled_at (max t (exec_endTime ex)) rs"

text \<open>Decimal digits of a number, for the name of a model segment.\<close>

definition digit :: "nat \<Rightarrow> char" where
  "digit d = char_of (of_char CHR ''0'' + d)"

fun string_of_nat :: "nat \<Rightarrow> string" where
  "string_of_nat n =
     (if n \<ge> 10 then string_of_nat (n div 10) @ [digit (n mod 10)] else [digit n])"

declare string_of_nat.simps [simp del]

text \<open>\<^verbatim>\<open>tokens.input += usage.prompt_tokens || 0\<close> and its two siblings, under
  \<^verbatim>\<open>if (currentResponse.usage)\<close>.\<close>

definition add_usage :: "token_usage \<Rightarrow> completion_usage option \<Rightarrow> token_usage" where
  "add_usage t u =
     (case u of
        None \<Rightarrow> t
      | Some v \<Rightarrow>
          \<lparr>tokens_input = tokens_input t + or_zero (prompt_tokens v),
           tokens_output = tokens_output t + or_zero (completion_tokens v),
           tokens_total = tokens_total t + or_zero (total_tokens v)\<rparr>)"

text \<open>One pass through the body of the \<^verbatim>\<open>while\<close> loop, from \<open>toolsStartTime\<close> on, for a
  response that carries the tool calls \<open>toolCallsInResponse\<close>. A rejection of the next
  model call leaves through \<open>Inl\<close>, with the instant at which it happened.\<close>

definition tool_iteration ::
  "env \<Rightarrow> tool list option \<Rightarrow> loop_state \<Rightarrow> tool_call list \<Rightarrow> (thrown \<times> nat) + loop_state" where
  "tool_iteration e ts st toolCallsInResponse =
     (let toolsStartTime = now st;
          executionResults = map (run_tool_call e ts toolsStartTime) toolCallsInResponse;
          st1 = st\<lparr>currentMessages := currentMessages st @ [AssistantToolCalls toolCallsInResponse]\<rparr>;
          st2 = foldl record_settled st1 executionResults;
          nextModelStartTime = settled_at toolsStartTime executionResults;
          thisToolsTime = nextModelStartTime - toolsStartTime
      in case create e (currentMessages st2) of
           (Inl err, d) \<Rightarrow> Inl (err, nextModelStartTime + d)
         | (Inr r, d) \<Rightarrow>
             (let nextModelEndTime = nextModelStartTime + d;
                  thisModelTime = nextModelEndTime - nextModelStartTime
              in Inr (st2\<lparr>toolsTime := toolsTime st2 + thisToolsTime,
                          currentResponse := r,
                          timeSegments := timeSegments st2 @
                            [\<lparr>segment_type = ModelSegment,
                              segment_name = ''Model response (iteration '' @
                                string_of_nat (iterationCount st + 1) @ '')'',
                              segment_startTime = nextModelStartTime,
                              segment_endTime = nextModelEndTime,
                              segment_duration = thisModelTime\<rparr>],
                          modelTime := modelTime st2 + thisModelTime,
                          content := updated_content (content st2) r,
                          tokens := add_usage (tokens st2) (usage r),
                          iterationCount := iterationCount st + 1,
                          now := nextModelEndTime\<rparr>)))"

text \<open>\<^verbatim>\<open>while (iterationCount < MAX_TOOL_ITERATIONS)\<close>. The constant is imported from
  \<^verbatim>\<open>@/providers\<close> and is the parameter \<open>max_tool_iterations\<close> here.\<close>

function tool_loop ::
  "env \<Rightarrow> tool list option \<Rightarrow> nat \<Rightarrow> loop_state \<Rightarrow> (thrown \<times> nat) + loop_state" where
  "tool_loop e ts max_tool_iterations st =
     (if iterationCount st < max_tool_iterations then
        (let st1 = st\<lparr>content := updated_content (content st) (currentResponse st)\<rparr>
         in case first_tool_calls (currentResponse st) of
              None \<Rightarrow> Inr st1
            | Some toolCallsInResponse \<Rightarrow>
                (if toolCallsInResponse = [] then Inr st1
                 else (case tool_iteration e ts st1 toolCallsInResponse of
                         Inl err \<Rightarrow> Inl err
                       | Inr st2 \<Rightarrow> tool_loop e ts max_tool_iterations st2)))
      else Inr st)"
  by pat_completeness auto
termination
  by (relation "measure (\<lambda>(e, ts, m, st). m - iterationCount st)")
     (auto simp: tool_iteration_def Let_def split: prod.splits sum.splits)

declare tool_loop.simps [simp del]

text \<open>The result of the non-streaming path, and the error its \<^verbatim>\<open>catch\<close> throws.\<close>

record timing =
  timing_startTime :: nat
  timing_endTime :: nat
  timing_duration :: nat
  timing_modelTime :: nat
  timing_toolsTime :: nat
  timing_firstResponseTime :: nat
  iterations :: nat
  timing_timeSegments :: "time_segment list"

record provider_response =
  response_content :: string
  response_model :: string
  response_tokens :: token_usage
  response_toolCalls :: "tool_call_record list option"
  response_toolResults :: "json option list option"
  response_timing :: timing

record enhanced_error =
  error_text :: string
  error_startTime :: nat
  error_endTime :: nat
  error_duration :: nat

text \<open>\<^verbatim>\<open>new Error(error instanceof Error ? error.message : String(error))\<close> with its
  timing, thrown by the outer \<^verbatim>\<open>catch\<close> at \<open>providerEndTime\<close>.\<close>

definition enhancedError :: "nat \<Rightarrow> thrown \<Rightarrow> nat \<Rightarrow> enhanced_error" where
  "enhancedError providerStartTime err providerEndTime =
     \<lparr>error_text = (case err of ErrorObj m \<Rightarrow> m | NonError v \<Rightarrow> v),
      error_startTime = providerStartTime, error_endTime = providerEndTime,
      error_duration = providerEndTime - providerStartTime\<rparr>"

text \<open>\<open>allMessages\<close>: the system prompt and the context when truthy, then the messages.\<close>

definition allMessages :: "provider_request \<Rightarrow> message list" where
  "allMessages request =
     (case systemPrompt request of
        None \<Rightarrow> []
      | Some p \<Rightarrow> (if p \<noteq> [] then [Message ''system'' p] else [])) @
     (case request_context request of
        None \<Rightarrow> []
      | Some c \<Rightarrow> (if c \<noteq> [] then [Message ''user'' c] else [])) @
     (case messages request of None \<Rightarrow> [] | Some ms \<Rightarrow> ms)"

text \<open>The object the non-streaming path returns, built from the variables of the loop
  at \<open>providerEndTime\<close>, the instant the loop was left.\<close>

definition provider_response_of ::
  "provider_request \<Rightarrow> nat \<Rightarrow> nat \<Rightarrow> loop_state \<Rightarrow> provider_response" where
  "provider_response_of request providerStartTime firstResponseTime st =
     (let providerEndTime = now st
      in \<lparr>response_content = content st,
          response_model = model request,
          response_tokens = tokens st,
          response_toolCalls = (if length (toolCalls st) > 0 then Some (toolCalls st) else None),
          response_toolResults =
            (if length (toolResults st) > 0 then Some (toolResults st) else None),
          response_timing =
            \<lparr>timing_startTime = providerStartTime,
             timing_endTime = providerEndTime,
             timing_duration = providerEndTime - providerStartTime,
             timing_modelTime = modelTime st,
             timing_toolsTime = toolsTime st,
             timing_firstResponseTime = firstResponseTime,
             iterations = iterationCount st + 1,
             timing_timeSegments = timeSegments st\<rparr>\<rparr>)"

text \<open>The variables as the loop finds them, after the first response \<open>r\<close> has arrived
  \<open>firstResponseTime\<close> milliseconds after \<open>initialCallTime\<close>.\<close>

definition initial_state :: "provider_request \<Rightarrow> nat \<Rightarrow> completion \<Rightarrow> nat \<Rightarrow> loop_state" where
  "initial_state request initialCallTime r firstResponseTime =
     \<lparr>currentResponse = r,
      content = (case first_content r of None \<Rightarrow> [] | Some s \<Rightarrow> s),
      tokens =
        (case usage r of
           None \<Rightarrow> \<lparr>tokens_input = 0, tokens_output = 0, tokens_total = 0\<rparr>
         | Some u \<Rightarrow>
             \<lparr>tokens_input = or_zero (prompt_tokens u),
              tokens_output = or_zero (completion_tokens u),
              tokens_total = or_zero (total_tokens u)\<rparr>),
      toolCalls = [], toolResults = [],
      currentMessages = allMessages request,
      iterationCount = 0,
      modelTime = firstResponseTime, toolsTime = 0,
      timeSegments =
        [\<lparr>segment_type = ModelSegment, segment_name = ''Initial response'',
          segment_startTime = initialCallTime,
          segment_endTime = initialCallTime + firstResponseTime,
          segment_duration = firstResponseTime\<rparr>],
      now = initialCallTime + firstResponseTime\<rparr>"

text \<open>The non-streaming path, from \<open>initialCallTime\<close> (which the model reads at
  \<open>providerStartTime\<close>) to the returned object, or to the error of the outer \<^verbatim>\<open>catch\<close>.\<close>

definition executeRequest_batch ::
  "env \<Rightarrow> nat \<Rightarrow> provider_request \<Rightarrow> nat \<Rightarrow> enhanced_error + provider_response" where
  "executeRequest_batch e max_tool_iterations request providerStartTime =
     (let initialCallTime = providerStartTime
      in case create e (allMessages request) of
           (Inl err, d) \<Rightarrow> Inl (enhancedError providerStartTime err (initialCallTime + d))
         | (Inr r, d) \<Rightarrow>
             (let firstResponseTime = (initialCallTime + d) - initialCallTime
              in case tool_loop e (tools request) max_tool_iterations
                        (initial_state request initialCallTime r firstResponseTime) of
                   Inl (err, providerEndTime) \<Rightarrow>
                     Inl (enhancedError providerStartTime err providerEndTime)
                 | Inr st \<Rightarrow>
                     Inr (provider_response_of request providerStartTime firstResponseTime st)))"

section \<open>The LM Studio provider: the streaming path\<close>

text \<open>The part of \<open>streamingResult.execution.output\<close> that the callback writes. A token
  counter holds whatever the property of the usage object was: \<open>None\<close> is
  \<^verbatim>\<open>undefined\<close>.\<close>

record stream_tokens =
  stream_input :: "int option"
  stream_output :: "int option"
  stream_total :: "int option"

record provider_timing =
  providerTiming_startTime :: nat
  providerTiming_endTime :: nat
  providerTiming_duration :: nat
  providerTiming_timeSegments :: "time_segment list"

record execution_output =
  output_content :: string
  output_tokens :: stream_tokens
  output_cost :: cost_breakdown
  providerTiming :: provider_timing

text \<open>The callback \<open>onUpdate\<close> that \<open>executeRequest\<close> hands to the stream, run at
  \<open>streamEndTime\<close>.\<close>

definition onUpdate ::
  "env \<Rightarrow> provider_request \<Rightarrow> nat \<Rightarrow> nat \<Rightarrow> string \<Rightarrow> completion_usage \<Rightarrow>
   execution_output \<Rightarrow> execution_output" where
  "onUpdate e request providerStartTime streamEndTime cleanContent u out =
     (let costResult = calculateCost e (model request) (prompt_tokens u) (completion_tokens u);
          pt = providerTiming out
      in out\<lparr>output_content := cleanContent,
              output_tokens :=
                \<lparr>stream_input = prompt_tokens u, stream_output = completion_tokens u,
                 stream_total = total_tokens u\<rparr>,
              output_cost :=
                \<lparr>cost_input = cost_input costResult, cost_output = cost_output costResult,
                 cost_total = cost_total costResult\<rparr>,
              providerTiming :=
                pt\<lparr>providerTiming_endTime := streamEndTime,
                    providerTiming_duration := streamEndTime - providerStartTime,
                    providerTiming_timeSegments :=
                      (case providerTiming_timeSegments pt of
                         [] \<Rightarrow> []
                       | seg # segs \<Rightarrow>
                           seg\<lparr>segment_endTime := streamEndTime,
                               segment_duration := streamEndTime - providerStartTime\<rparr> # segs)\<rparr>\<rparr>)"

text \<open>\<open>createReadableStreamFromLMStudioStream\<close>: the variables of \<open>start\<close>, the output
  object the callback writes, what was enqueued (as the reads the consumer of the stream
  will see), and the clock.\<close>

record stream_state =
  accumulatedContent :: string
  latest_usage :: completion_usage
  execution :: execution_output
  enqueued :: "read list"
  stream_now :: nat

text \<open>The body of \<^verbatim>\<open>for await\<close> for one chunk.\<close>

definition stream_chunk ::
  "env \<Rightarrow> provider_request \<Rightarrow> nat \<Rightarrow> stream_state \<Rightarrow> completion_chunk \<Rightarrow> nat \<Rightarrow> stream_state" where
  "stream_chunk e request providerStartTime st chunk wait =
     (let delta = (case delta_content chunk of None \<Rightarrow> [] | Some d \<Rightarrow> d);
          acc = accumulatedContent st @ delta;
          u = (case chunk_usage chunk of None \<Rightarrow> latest_usage st | Some v \<Rightarrow> v);
          t = stream_now st + wait
      in \<lparr>accumulatedContent = acc,
          latest_usage = u,
          execution = onUpdate e request providerStartTime t acc u (execution st),
          enqueued = enqueued st @ [Chunk delta],
          stream_now = t\<rparr>)"

text \<open>The iteration: to its end (\<^verbatim>\<open>controller.close()\<close>) or to the first rejection
  (\<^verbatim>\<open>controller.error(error)\<close>, which the consumer reads as a rejection).\<close>

fun consume_stream ::
  "env \<Rightarrow> provider_request \<Rightarrow> nat \<Rightarrow> stream_state \<Rightarrow> stream_item list \<Rightarrow> stream_state" where
  "consume_stream e request providerStartTime st [] = st"
| "consume_stream e request providerStartTime st (StreamThrows err # rest) =
     st\<lparr>enqueued := enqueued st @ [ReadThrows err]\<rparr>"
| "consume_stream e request providerStartTime st (StreamChunk chunk wait # rest) =
     consume_stream e request providerStartTime
       (stream_chunk e request providerStartTime st chunk wait) rest"

text \<open>The state in which \<open>executeRequest\<close> returns \<open>streamingResult\<close>, at \<open>t\<close>: the usage
  variable is \<^verbatim>\<open>{}\<close>, the counters are zero.\<close>

definition streaming_start :: "nat \<Rightarrow> nat \<Rightarrow> stream_state" where
  "streaming_start providerStartTime t =
     \<lparr>accumulatedContent = [],
      latest_usage = \<lparr>prompt_tokens = None, completion_tokens = None, total_tokens = None\<rparr>,
      execution =
        \<lparr>output_content = [],
         output_tokens = \<lparr>stream_input = Some 0, stream_output = Some 0, stream_total = Some 0\<rparr>,
         output_cost = \<lparr>cost_input = 0, cost_output = 0, cost_total = 0\<rparr>,
         providerTiming =
           \<lparr>providerTiming_startTime = providerStartTime,
            providerTiming_endTime = t,
            providerTiming_duration = t - providerStartTime,
            providerTiming_timeSegments =
              [\<lparr>segment_type = ModelSegment, segment_name = ''Streaming response'',
                segment_startTime = providerStartTime, segment_endTime = t,
                segment_duration = t - providerStartTime\<rparr>]\<rparr>\<rparr>,
      enqueued = [],
      stream_now = t\<rparr>"

text \<open>\<open>executeRequest\<close> from \<open>providerStartTime\<close> on (the base URL, the client and the
  rest of the payload are set up before): the streaming path when \<^verbatim>\<open>request.stream\<close> is
  set and the request has no tools, the tool loop otherwise. The streaming result is
  given as it stands once the stream has been read to its end.\<close>

datatype provider_result = Response provider_response | StreamingExecution stream_state

definition executeRequest ::
  "env \<Rightarrow> nat \<Rightarrow> provider_request \<Rightarrow> nat \<Rightarrow> enhanced_error + provider_result" where
  "executeRequest e max_tool_iterations request providerStartTime =
     (if stream request \<and> (case tools request of None \<Rightarrow> True | Some ts \<Rightarrow> ts = []) then
        (case create_stream e (allMessages request) of
           (Inl err, d) \<Rightarrow> Inl (enhancedError providerStartTime err (providerStartTime + d))
         | (Inr streamResponse, d) \<Rightarrow>
             Inr (StreamingExecution
                    (consume_stream e request providerStartTime
                       (streaming_start providerStartTime (providerStartTime + d))
                       streamResponse)))
      else
        (case executeRequest_batch e max_tool_iterations request providerStartTime of
           Inl err \<Rightarrow> Inl err
         | Inr r \<Rightarrow> Inr (Response r)))"

section \<open>Vocabulary of the properties\<close>

text \<open>The first rejection among the reads of a stream, and the reads before it.\<close>

fun first_throw :: "read list \<Rightarrow> thrown option" where
  "first_throw [] = None"
| "first_throw (ReadThrows e # rest) = Some e"
| "first_throw (Chunk c # rest) = first_throw rest"

fun is_chunk :: "read \<Rightarrow> bool" where
  "is_chunk (Chunk c) = True"
| "is_chunk (ReadThrows e) = False"

text \<open>A line whose payload is the sentinel: the line at which the loop over the lines
  of a chunk stops.\<close>

definition is_done_line :: "string \<Rightarrow> bool" where
  "is_done_line line = (startsWith line ''data: '' \<and> trim (drop 6 line) = ''[DONE]'')"

text \<open>The executions of a batch of tool calls started at \<open>t\<close>: what the callbacks
  resolve with, the \<^verbatim>\<open>null\<close>s left out, in the order of the calls.\<close>

fun executed :: "env \<Rightarrow> tool list option \<Rightarrow> nat \<Rightarrow> tool_call list \<Rightarrow> tool_execution list" where
  "executed e ts t [] = []"
| "executed e ts t (tc # calls) =
     (case run_tool_call e ts t tc of
        None \<Rightarrow> executed e ts t calls
      | Some ex \<Rightarrow> ex # executed e ts t calls)"

text \<open>The outputs that the successful records of \<open>toolCalls\<close> carry.\<close>

fun output_of :: "result_content \<Rightarrow> json option" where
  "output_of (Output v) = v"
| "output_of (ErrorPayload m t) = None"

definition successful_outputs :: "tool_call_record list \<Rightarrow> json option list" where
  "successful_outputs cs = map (\<lambda>c. output_of (record_result c)) (filter record_success cs)"

text \<open>Token counters compared field by field; a usage report without a negative count;
  the counters that \<open>onUpdate\<close> writes from a usage object.\<close>

definition tokens_le :: "token_usage \<Rightarrow> token_usage \<Rightarrow> bool" where
  "tokens_le a b =
     (tokens_input a \<le> tokens_input b \<and> tokens_output a \<le> tokens_output b \<and>
      tokens_total a \<le> tokens_total b)"

definition nonneg_usage :: "completion_usage option \<Rightarrow> bool" where
  "nonneg_usage u =
     (case u of
        None \<Rightarrow> True
      | Some v \<Rightarrow>
          0 \<le> or_zero (prompt_tokens v) \<and> 0 \<le> or_zero (completion_tokens v) \<and>
          0 \<le> or_zero (total_tokens v))"

definition usage_tokens :: "completion_usage \<Rightarrow> stream_tokens" where
  "usage_tokens u =
     \<lparr>stream_input = prompt_tokens u, stream_output = completion_tokens u,
      stream_total = total_tokens u\<rparr>"

fun is_tool_segment :: "time_segment \<Rightarrow> bool" where
  "is_tool_segment s = (segment_type s = ToolSegment)"

text \<open>The records of a returned object, and its count of iterations, for the examples.\<close>

definition recorded_calls :: "enhanced_error + provider_response \<Rightarrow> tool_call_record list" where
  "recorded_calls x =
     (case x of
        Inl err \<Rightarrow> []
      | Inr r \<Rightarrow> (case response_toolCalls r of None \<Rightarrow> [] | Some cs \<Rightarrow> cs))"


text \<open>The token counters of a streaming result.\<close>

definition streamed_tokens :: "enhanced_error + provider_result \<Rightarrow> stream_tokens option" where
  "streamed_tokens x =
     (case x of
        Inr (StreamingExecution st) \<Rightarrow> Some (output_tokens (execution st))
      | Inr (Response r) \<Rightarrow> None
      | Inl err \<Rightarrow> None)"

section \<open>Example collaborators\<close>

text \<open>
  Concrete collaborators on which the definitions can be run. The backend answers the
  call that follows \<open>n\<close> tool rounds with the \<open>n\<close>-th completion of a script, and with
  \<open>final\<close> once the script is exhausted; every call takes 10 ms. The JSON decoder knows
  the documents of a table and rejects any other text. A tool settles as a table says,
  after the table's delay.
\<close>

fun is_tool_round :: "message \<Rightarrow> bool" where
  "is_tool_round (AssistantToolCalls cs) = True"
| "is_tool_round m = False"

definition scripted_backend ::
  "completion list \<Rightarrow> completion \<Rightarrow> message list \<Rightarrow> (thrown + completion) \<times> nat" where
  "scripted_backend script final ms =
     (let n = length (filter is_tool_round ms)
      in (Inr (if n < length script then script ! n else final), 10))"

definition decode_table :: "(string \<times> json) list \<Rightarrow> string \<Rightarrow> thrown + json" where
  "decode_table tbl s =
     (case map_of tbl s of Some j \<Rightarrow> Inr j | None \<Rightarrow> Inl (ErrorObj ''Unexpected token''))"

definition tool_table ::
  "(string \<times> (thrown + tool_result) \<times> nat) list \<Rightarrow> string \<Rightarrow> json \<Rightarrow>
   (thrown + tool_result) \<times> nat" where
  "tool_table tbl name params =
     (case map_of tbl name of
        Some r \<Rightarrow> r
      | None \<Rightarrow> (Inl (ErrorObj ''Tool not found''), 0))"

definition example_env ::
  "completion list \<Rightarrow> completion \<Rightarrow> (string \<times> (thrown + tool_result) \<times> nat) list \<Rightarrow> env" where
  "example_env script final tbl =
     \<lparr>create = scripted_backend script final,
      create_stream = (\<lambda>ms. (Inr [], 0)),
      calculateCost = (\<lambda>m a b. \<lparr>cost_input = 0, cost_output = 0, cost_total = 0\<rparr>),
      json_parse = decode_table [(''{}'', JObj [])],
      prepareToolExecution = (\<lambda>t args. Inr (args, args)),
      executeTool = tool_table tbl\<rparr>"

text \<open>A completion that says \<open>text\<close> and calls the named tools with the given argument
  texts; one that only answers; a successful tool result and a returned failure; a request
  with the named tools.\<close>

definition example_call :: "string \<times> string \<Rightarrow> tool_call" where
  "example_call c =
     \<lparr>call_id = ''call_'' @ fst c, function_name = fst c, function_arguments = snd c\<rparr>"

definition calling :: "string \<Rightarrow> (string \<times> string) list \<Rightarrow> completion" where
  "calling text cs =
     \<lparr>choices = [\<lparr>message_content = Some text, tool_calls = Some (map example_call cs)\<rparr>],
      usage = Some \<lparr>prompt_tokens = Some 5, completion_tokens = Some 7, total_tokens = Some 12\<rparr>\<rparr>"

definition answering :: "string \<Rightarrow> completion" where
  "answering text =
     \<lparr>choices = [\<lparr>message_content = Some text, tool_calls = None\<rparr>],
      usage = Some \<lparr>prompt_tokens = Some 5, completion_tokens = Some 7, total_tokens = Some 12\<rparr>\<rparr>"

definition succeeds :: "json \<Rightarrow> thrown + tool_result" where
  "succeeds v = Inr \<lparr>success = True, result_output = Some v, result_error = None\<rparr>"

definition refuses :: "string \<Rightarrow> thrown + tool_result" where
  "refuses m = Inr \<lparr>success = False, result_output = None, result_error = Some m\<rparr>"

definition example_tool :: "string \<Rightarrow> tool" where
  "example_tool n =
     \<lparr>tool_id = n, tool_description = [], tool_parameters = JObj [], usageControl = None\<rparr>"

definition example_request :: "string list \<Rightarrow> provider_request" where
  "example_request names =
     \<lparr>model = ''lmstudio/example'', systemPrompt = None, request_context = None,
      messages = Some [Message ''user'' ''hi''],
      tools = Some (map example_tool names),
      stream = False\<rparr>"

text \<open>Collaborators whose streamed completion is the given list of steps, and a request
  that asks for streaming.\<close>

definition streaming_env :: "stream_item list \<Rightarrow> env" where
  "streaming_env items =
     (example_env [] (answering []) [])\<lparr>create_stream := (\<lambda>ms. (Inr items, 5))\<rparr>"

definition streaming_request :: provider_request where
  "streaming_request = (example_request [])\<lparr>stream := True\<rparr>"

definition text_chunk :: "string \<Rightarrow> completion_chunk" where
  "text_chunk s = \<lparr>delta_content = Some s, chunk_usage = None\<rparr>"

definition usage_chunk :: "int \<Rightarrow> int \<Rightarrow> completion_chunk" where
  "usage_chunk p c =
     \<lparr>delta_content = None,
      chunk_usage =
        Some \<lparr>prompt_tokens = Some p, completion_tokens = Some c, total_tokens = Some (p + c)\<rparr>\<rparr>"

section \<open>Properties of the transformed stream\<close>

subsection \<open>What the loop enqueues\<close>

lemma data_events_content:
  "ev \<in> set (data_events parse data) \<Longrightarrow> \<exists>v. ev = ContentEvent v \<and> truthy (Some v)"
  by (auto simp: data_events_def split: option.splits if_splits)

lemma process_lines_content:
  "ev \<in> set (process_lines parse ls) \<Longrightarrow> \<exists>v. ev = ContentEvent v \<and> truthy (Some v)"
  by (induction ls) (auto simp: Let_def dest: data_events_content split: if_splits)

lemma on_chunk_content:
  "ev \<in> set (fst (on_chunk parse buffer chunk)) \<Longrightarrow> \<exists>v. ev = ContentEvent v \<and> truthy (Some v)"
  by (auto simp: on_chunk_def Let_def dest: process_lines_content split: if_splits)

lemma read_loop_Chunk:
  "read_loop parse buffer (Chunk c # rest) =
     (fst (on_chunk parse buffer c) @ fst (read_loop parse (snd (on_chunk parse buffer c)) rest),
      snd (read_loop parse (snd (on_chunk parse buffer c)) rest))"
  by (simp split: prod.splits)

lemma read_loop_content:
  "ev \<in> set (fst (read_loop parse buffer reads)) \<Longrightarrow> \<exists>v. ev = ContentEvent v \<and> truthy (Some v)"
proof (induction reads arbitrary: buffer)
  case Nil
  then show ?case by simp
next
  case (Cons r rest)
  show ?case
  proof (cases r)
    case (ReadThrows x)
    with Cons.prems show ?thesis by simp
  next
    case (Chunk chunk)
    with Cons.prems have
      "ev \<in> set (fst (on_chunk parse buffer chunk)) \<or>
       ev \<in> set (fst (read_loop parse (snd (on_chunk parse buffer chunk)) rest))"
      by (simp only: read_loop_Chunk fst_conv set_append Un_iff)
    then show ?thesis
    proof
      assume "ev \<in> set (fst (on_chunk parse buffer chunk))"
      then show ?thesis by (rule on_chunk_content)
    next
      assume "ev \<in> set (fst (read_loop parse (snd (on_chunk parse buffer chunk)) rest))"
      then show ?thesis by (rule Cons.IH)
    qed
  qed
qed

lemma read_loop_no_terminal: "filter is_terminal (fst (read_loop parse buffer reads)) = []"
  by (auto simp: filter_empty_conv dest: read_loop_content)

lemma chat_id_no_terminal: "filter is_terminal (chat_id_events chatId) = []"
  by (simp add: chat_id_events_def split: option.splits)

lemma read_loop_throw: "snd (read_loop parse buffer reads) = first_throw reads"
proof (induction reads arbitrary: buffer)
  case Nil
  then show ?case by simp
next
  case (Cons r rest)
  then show ?case by (cases r) (simp_all only: read_loop_Chunk snd_conv first_throw.simps read_loop.simps)
qed

lemma transformedStream_closed:
  assumes "first_throw reads = None"
  shows "transformedStream parse chatId responseId reads =
           \<lparr>events = chat_id_events chatId @ fst (read_loop parse [] reads) @ [DoneEvent responseId],
            ending = Closed\<rparr>"
proof -
  obtain evs r where rl: "read_loop parse [] reads = (evs, r)"
    by (cases "read_loop parse [] reads")
  with assms have "r = None" using read_loop_throw [of parse "[]" reads] by simp
  with rl show ?thesis by (simp add: transformedStream_def)
qed

lemma transformedStream_errored:
  assumes "first_throw reads = Some e"
  shows "transformedStream parse chatId responseId reads =
           \<lparr>events = chat_id_events chatId @ fst (read_loop parse [] reads), ending = Errored e\<rparr>"
proof -
  obtain evs r where rl: "read_loop parse [] reads = (evs, r)"
    by (cases "read_loop parse [] reads")
  with assms have "r = Some e" using read_loop_throw [of parse "[]" reads] by simp
  with rl show ?thesis by (simp add: transformedStream_def)
qed

subsection \<open>Terminal events\<close>

text \<open>
  C1, as the code has it. When no read rejects, the route closes the stream after
  exactly one terminal event, which is the done event with the response id of this
  stream and is the last event enqueued, whether or not any content was enqueued. When a
  read rejects, the route enqueues no terminal event at all, neither done nor error: it
  puts the stream into the errored state with the value that was thrown.
\<close>

theorem transformedStream_terminal_event:
  "(case first_throw reads of
      None \<Rightarrow>
        ending (transformedStream parse chatId responseId reads) = Closed \<and>
        length (filter is_terminal (events (transformedStream parse chatId responseId reads))) = 1 \<and>
        last (events (transformedStream parse chatId responseId reads)) = DoneEvent responseId
    | Some e \<Rightarrow>
        ending (transformedStream parse chatId responseId reads) = Errored e \<and>
        filter is_terminal (events (transformedStream parse chatId responseId reads)) = [])"
proof (cases "first_throw reads")
  case None
  then show ?thesis
    by (simp add: transformedStream_closed chat_id_no_terminal read_loop_no_terminal)
next
  case (Some e)
  then show ?thesis
    by (simp add: transformedStream_errored chat_id_no_terminal read_loop_no_terminal)
qed

theorem transformedStream_terminal_event_witness:
  "ending (transformedStream (map_of []) (Some ''chat-1'') ''resp-1'' []) = Closed \<and>
   length (filter is_terminal (events (transformedStream (map_of []) (Some ''chat-1'') ''resp-1'' []))) = 1 \<and>
   last (events (transformedStream (map_of []) (Some ''chat-1'') ''resp-1'' [])) = DoneEvent ''resp-1'' \<and>
   ending (transformedStream (map_of []) None ''resp-1'' [Chunk ''Hello'', ReadThrows (ErrorObj ''socket closed'')])
     = Errored (ErrorObj ''socket closed'') \<and>
   filter is_terminal
     (events (transformedStream (map_of []) None ''resp-1'' [Chunk ''Hello'', ReadThrows (ErrorObj ''socket closed'')]))
     = []"
  using transformedStream_terminal_event [where reads = "[]" and parse = "map_of []"
      and chatId = "Some ''chat-1''" and responseId = "''resp-1''"]
    transformedStream_terminal_event [where reads = "[Chunk ''Hello'', ReadThrows (ErrorObj ''socket closed'')]"
      and parse = "map_of []" and chatId = None and responseId = "''resp-1''"]
  by simp

text \<open>C1 as stated fails when the upstream throws: after one chunk and a rejected read the
  sequence holds the content event only, and no terminal event.\<close>

theorem terminal_event_missing_counterexample:
  "events (transformedStream (map_of []) None ''resp-1'' [Chunk ''Hello'', ReadThrows (ErrorObj ''socket closed'')])
     = [ContentEvent (JStr ''Hello'')] \<and>
   length (filter is_terminal
     (events (transformedStream (map_of []) None ''resp-1''
        [Chunk ''Hello'', ReadThrows (ErrorObj ''socket closed'')]))) = 0"
  by code_simp

subsection \<open>An exception while reading\<close>

lemma read_loop_before_throw:
  "fst (read_loop parse buffer (takeWhile is_chunk reads)) = fst (read_loop parse buffer reads)"
proof (induction reads arbitrary: buffer)
  case Nil
  then show ?case by simp
next
  case (Cons r rest)
  show ?case
  proof (cases r)
    case (Chunk c)
    then show ?thesis
      using Cons.IH by (simp only: takeWhile.simps is_chunk.simps if_True read_loop_Chunk fst_conv)
  next
    case (ReadThrows x)
    then show ?thesis by simp
  qed
qed

lemma first_throw_takeWhile: "first_throw (takeWhile is_chunk reads) = None"
proof (induction reads)
  case Nil
  then show ?case by simp
next
  case (Cons r rest)
  then show ?case by (cases r) auto
qed

text \<open>
  C2, as the code has it. When a read rejects, the route leaves the stream errored with
  the thrown value; the events enqueued are exactly those of the chunks read before the
  rejection (what a normal end after those chunks would have enqueued, less its done
  event), and none of them is terminal: no done event and no error event.
\<close>

theorem upstream_exception_errors_stream:
  assumes "first_throw reads = Some e"
  shows "ending (transformedStream parse chatId responseId reads) = Errored e \<and>
         \<not> list_ex is_terminal (events (transformedStream parse chatId responseId reads)) \<and>
         events (transformedStream parse chatId responseId (takeWhile is_chunk reads)) =
           events (transformedStream parse chatId responseId reads) @ [DoneEvent responseId]"
proof -
  have ev: "events (transformedStream parse chatId responseId reads) =
              chat_id_events chatId @ fst (read_loop parse [] reads)"
    by (simp add: transformedStream_errored [OF assms])
  have "filter is_terminal (chat_id_events chatId @ fst (read_loop parse [] reads)) = []"
    by (simp add: chat_id_no_terminal read_loop_no_terminal)
  then have b: "\<not> list_ex is_terminal (events (transformedStream parse chatId responseId reads))"
    unfolding ev by (simp only: list_ex_iff filter_empty_conv) blast
  have c: "events (transformedStream parse chatId responseId (takeWhile is_chunk reads)) =
           events (transformedStream parse chatId responseId reads) @ [DoneEvent responseId]"
    by (simp add: ev transformedStream_closed [OF first_throw_takeWhile] read_loop_before_throw)
  show ?thesis
    using b c by (simp add: transformedStream_errored [OF assms])
qed

theorem upstream_exception_errors_stream_witness:
  "ending (transformedStream (map_of []) (Some ''chat-1'') ''resp-1''
     [Chunk ''Hel'', Chunk ''lo'', ReadThrows (NonError ''aborted''), Chunk ''!''])
     = Errored (NonError ''aborted'') \<and>
   \<not> list_ex is_terminal (events (transformedStream (map_of []) (Some ''chat-1'') ''resp-1''
     [Chunk ''Hel'', Chunk ''lo'', ReadThrows (NonError ''aborted''), Chunk ''!''])) \<and>
   events (transformedStream (map_of []) (Some ''chat-1'') ''resp-1'' [Chunk ''Hel'', Chunk ''lo'']) =
     events (transformedStream (map_of []) (Some ''chat-1'') ''resp-1''
       [Chunk ''Hel'', Chunk ''lo'', ReadThrows (NonError ''aborted''), Chunk ''!'']) @
     [DoneEvent ''resp-1'']"
proof -
  have h: "first_throw [Chunk ''Hel'', Chunk ''lo'', ReadThrows (NonError ''aborted''), Chunk ''!'']
             = Some (NonError ''aborted'')"
    by simp
  show ?thesis
    using upstream_exception_errors_stream [OF h, of "map_of []" "Some ''chat-1''" "''resp-1''"]
    by simp
qed

text \<open>C2 as stated fails: after a rejected read no event of type error is in the
  sequence; the stream is errored instead.\<close>

theorem error_event_missing_counterexample:
  "\<not> list_ex is_error_event
       (events (transformedStream (map_of []) None ''resp-1'' [ReadThrows (ErrorObj ''socket closed'')])) \<and>
   ending (transformedStream (map_of []) None ''resp-1'' [ReadThrows (ErrorObj ''socket closed'')])
     = Errored (ErrorObj ''socket closed'')"
  by code_simp

subsection \<open>Chunk boundaries\<close>

lemma str_includes_iff: "str_includes s p \<longleftrightarrow> (\<exists>a b. s = a @ p @ b)"
proof (induction s)
  case Nil
  then show ?case by auto
next
  case (Cons c s)
  show ?case
  proof
    assume "str_includes (c # s) p"
    then consider "startsWith (c # s) p" | "str_includes s p" by auto
    then show "\<exists>a b. c # s = a @ p @ b"
    proof cases
      case 1
      then have "c # s = [] @ p @ drop (length p) (c # s)"
        by (metis append_Nil append_take_drop_id startsWith_def)
      then show ?thesis by blast
    next
      case 2
      then obtain a b where "s = a @ p @ b" using Cons.IH by blast
      then have "c # s = (c # a) @ p @ b" by simp
      then show ?thesis by blast
    qed
  next
    assume "\<exists>a b. c # s = a @ p @ b"
    then obtain a b where ab: "c # s = a @ p @ b" by blast
    show "str_includes (c # s) p"
    proof (cases a)
      case Nil
      with ab have "startsWith (c # s) p" by (simp add: startsWith_def)
      then show ?thesis by simp
    next
      case (Cons x a')
      with ab have "s = a' @ p @ b" by simp
      then show ?thesis using Cons.IH by auto
    qed
  qed
qed

lemma str_includes_append1: "str_includes c p \<Longrightarrow> str_includes (c @ d) p"
  unfolding str_includes_iff by (metis append.assoc)

lemma str_includes_append2: "str_includes d p \<Longrightarrow> str_includes (c @ d) p"
  unfolding str_includes_iff by (metis append.assoc)

lemma on_chunk_raw:
  "\<not> str_includes chunk ''data: '' \<Longrightarrow>
   on_chunk parse [] chunk = (if chunk \<noteq> [] then [ContentEvent (JStr chunk)] else [], [])"
  by (simp add: on_chunk_def)

lemma read_loop_raw:
  "\<not> str_includes (concat chunks) ''data: '' \<Longrightarrow>
   read_loop parse [] (map Chunk chunks) =
     (map (\<lambda>c. ContentEvent (JStr c)) (filter (\<lambda>c. c \<noteq> []) chunks), None)"
proof (induction chunks)
  case Nil
  then show ?case by simp
next
  case (Cons c chunks)
  from Cons.prems have c: "\<not> str_includes c ''data: ''"
    using str_includes_append1 [of c "''data: ''" "concat chunks"] by auto
  from Cons.prems have rest: "\<not> str_includes (concat chunks) ''data: ''"
    using str_includes_append2 [of "concat chunks" "''data: ''" c] by auto
  show ?case
    using Cons.IH [OF rest] on_chunk_raw [OF c, of parse] by simp
qed

lemma content_text_append: "content_text (xs @ ys) = content_text xs @ content_text ys"
  by (induction xs rule: content_text.induct) auto

lemma content_text_chat_id: "content_text (chat_id_events chatId) = []"
  by (simp add: chat_id_events_def split: option.splits)

lemma content_text_raw:
  "content_text (map (\<lambda>c. ContentEvent (JStr c)) (filter (\<lambda>c. c \<noteq> []) chunks)) = concat chunks"
  by (induction chunks) auto

lemma transformedStream_raw:
  assumes "\<not> str_includes (concat chunks) ''data: ''"
  shows "events (transformedStream parse chatId responseId (map Chunk chunks)) =
           chat_id_events chatId @
           map (\<lambda>c. ContentEvent (JStr c)) (filter (\<lambda>c. c \<noteq> []) chunks) @
           [DoneEvent responseId]"
  using read_loop_raw [OF assms, of parse] by (simp add: transformedStream_def)

text \<open>
  C3, as the code has it. For upstream text in which the framing marker \<^verbatim>\<open>data: \<close> does
  not occur, whatever the chunking: the sequence is the chat id event (if any), one
  content event per non-empty chunk carrying that chunk, and the done event; so the
  concatenation of the content data is the whole upstream text, the same as when the
  text arrives in one chunk. The sequence itself follows the chunking.
\<close>

theorem raw_text_chunk_invariance:
  assumes "\<not> str_includes (concat chunks) ''data: ''"
  shows "events (transformedStream parse chatId responseId (map Chunk chunks)) =
           chat_id_events chatId @
           map (\<lambda>c. ContentEvent (JStr c)) (filter (\<lambda>c. c \<noteq> []) chunks) @
           [DoneEvent responseId] \<and>
         content_text (events (transformedStream parse chatId responseId (map Chunk chunks))) =
           concat chunks \<and>
         content_text (events (transformedStream parse chatId responseId (map Chunk chunks))) =
           content_text (events (transformedStream parse chatId responseId [Chunk (concat chunks)]))"
proof -
  have t: "content_text (events (transformedStream parse chatId responseId (map Chunk chunks))) =
           concat chunks"
    by (simp add: transformedStream_raw [OF assms] content_text_append content_text_chat_id
        content_text_raw)
  have "\<not> str_includes (concat [concat chunks]) ''data: ''" using assms by simp
  from transformedStream_raw [OF this, of parse chatId responseId]
  have "content_text (events (transformedStream parse chatId responseId [Chunk (concat chunks)])) =
          concat chunks"
    by (simp add: content_text_append content_text_chat_id)
  with t show ?thesis by (simp add: transformedStream_raw [OF assms])
qed

theorem raw_text_chunk_invariance_witness:
  "events (transformedStream (map_of []) None ''resp-1'' (map Chunk [''Hello'', [], '' world''])) =
     chat_id_events None @
     map (\<lambda>c. ContentEvent (JStr c)) (filter (\<lambda>c. c \<noteq> []) [''Hello'', [], '' world'']) @
     [DoneEvent ''resp-1''] \<and>
   content_text (events (transformedStream (map_of []) None ''resp-1'' (map Chunk [''Hello'', [], '' world''])))
     = concat [''Hello'', [], '' world''] \<and>
   content_text (events (transformedStream (map_of []) None ''resp-1'' (map Chunk [''Hello'', [], '' world''])))
     = content_text (events (transformedStream (map_of []) None ''resp-1''
         [Chunk (concat [''Hello'', [], '' world''])]))"
proof -
  have h: "\<not> str_includes (concat [''Hello'', [], '' world'']) ''data: ''"
    by (simp add: startsWith_def)
  show ?thesis
    by (rule raw_text_chunk_invariance [OF h])
qed

text \<open>C3 as stated fails twice. Unframed text in two chunks gives two content events,
  in one chunk one. And a framed line followed by a newline that arrives in a chunk of
  its own gives a further content event holding that newline, so that the concatenated
  content differs from that of the same text in one chunk.\<close>

theorem chunk_invariance_counterexample:
  "events (transformedStream (map_of []) None ''resp-1'' [Chunk ''Hello'', Chunk '' world'']) \<noteq>
     events (transformedStream (map_of []) None ''resp-1'' [Chunk ''Hello world'']) \<and>
   content_text (events (transformedStream (map_of []) None ''resp-1''
       [Chunk ''data: not-json\<newline>'', Chunk ''\<newline>''])) = ''not-json\<newline>'' \<and>
   content_text (events (transformedStream (map_of []) None ''resp-1''
       [Chunk ''data: not-json\<newline>\<newline>''])) = ''not-json''"
  by code_simp

subsection \<open>Payloads that are not JSON\<close>

lemma trim_eq_Nil: "trim s = [] \<longleftrightarrow> (\<forall>c\<in>set s. is_space c)"
proof
  assume "trim s = []"
  then have "dropWhile is_space (rev (dropWhile is_space s)) = []"
    by (simp add: trim_def)
  then have "\<forall>c\<in>set (dropWhile is_space s). is_space c"
    by (simp add: dropWhile_eq_Nil_conv)
  then have "dropWhile is_space s = []"
    by (metis hd_dropWhile hd_in_set)
  then show "\<forall>c\<in>set s. is_space c"
    by (simp add: dropWhile_eq_Nil_conv)
next
  assume "\<forall>c\<in>set s. is_space c"
  then have d: "dropWhile is_space s = []" by (simp add: dropWhile_eq_Nil_conv)
  show "trim s = []" unfolding trim_def d by simp
qed

lemma startsWith_data_not_blank:
  assumes "startsWith line ''data: ''"
  shows "trim line \<noteq> []"
proof -
  from assms have "take (length ''data: '') line = ''data: ''"
    unfolding startsWith_def .
  then have "CHR ''d'' \<in> set (take (length ''data: '') line)" by simp
  then have "CHR ''d'' \<in> set line" by (rule in_set_takeD)
  moreover have "\<not> is_space CHR ''d''" by (simp add: is_space_def)
  ultimately show ?thesis by (auto simp: trim_eq_Nil)
qed

lemma process_lines_append:
  "\<not> list_ex is_done_line pre \<Longrightarrow>
   process_lines parse (pre @ rest) = process_lines parse pre @ process_lines parse rest"
  by (induction pre) (auto simp: is_done_line_def Let_def)

lemma process_lines_malformed:
  assumes "startsWith line ''data: ''" "trim (drop 6 line) \<noteq> []"
    "trim (drop 6 line) \<noteq> ''[DONE]''" "parse (trim (drop 6 line)) = None"
  shows "process_lines parse (line # post) =
           ContentEvent (JStr (trim (drop 6 line))) # process_lines parse post"
  using assms startsWith_data_not_blank [OF assms(1)]
  by (simp add: Let_def data_events_def try_content_def)

lemma split_nl_not_Nil: "split_nl s \<noteq> []"
  by (induction s) (auto split: list.splits)

lemma split_nl_hd: "\<exists>b. s = hd (split_nl s) @ b"
proof (induction s)
  case Nil
  then show ?case by simp
next
  case (Cons c s)
  then obtain b where b: "s = hd (split_nl s) @ b" by blast
  show ?case
  proof (cases "c = CHR 0x0A")
    case True
    then show ?thesis by simp
  next
    case False
    obtain l0 ls where sp: "split_nl s = l0 # ls"
      using split_nl_not_Nil [of s] by (cases "split_nl s") auto
    with False b have "c # s = hd (split_nl (c # s)) @ b" by simp
    then show ?thesis by blast
  qed
qed

lemma split_nl_sub: "l \<in> set (split_nl s) \<Longrightarrow> \<exists>a b. s = a @ l @ b"
proof (induction s arbitrary: l)
  case Nil
  then show ?case by simp
next
  case (Cons c s)
  show ?case
  proof (cases "c = CHR 0x0A")
    case True
    with Cons.prems have "l = [] \<or> l \<in> set (split_nl s)" by simp
    then show ?thesis
    proof
      assume "l = []"
      then have "c # s = [] @ l @ (c # s)" by simp
      then show ?thesis by blast
    next
      assume "l \<in> set (split_nl s)"
      then obtain a b where "s = a @ l @ b" using Cons.IH by blast
      then have "c # s = (c # a) @ l @ b" by simp
      then show ?thesis by blast
    qed
  next
    case False
    obtain l0 ls where sp: "split_nl s = l0 # ls"
      using split_nl_not_Nil [of s] by (cases "split_nl s") auto
    with False Cons.prems have "l = c # l0 \<or> l \<in> set ls" by simp
    then show ?thesis
    proof
      assume l: "l = c # l0"
      obtain b where "s = hd (split_nl s) @ b" using split_nl_hd [of s] by blast
      with sp l have "c # s = [] @ l @ b" by simp
      then show ?thesis by blast
    next
      assume "l \<in> set ls"
      then have "l \<in> set (split_nl s)" using sp by simp
      then obtain a b where "s = a @ l @ b" using Cons.IH by blast
      then have "c # s = (c # a) @ l @ b" by simp
      then show ?thesis by blast
    qed
  qed
qed

lemma complete_line_marks_buffer:
  assumes "butlast (split_nl s) = pre @ line # post" and "startsWith line ''data: ''"
  shows "str_includes s ''data: ''"
proof -
  from assms(1) have "line \<in> set (butlast (split_nl s))" by simp
  then have "line \<in> set (split_nl s)" by (rule in_set_butlastD)
  then obtain a b where s: "s = a @ line @ b" using split_nl_sub by blast
  from assms(2) have "line = ''data: '' @ drop (length ''data: '') line"
    unfolding startsWith_def by (metis append_take_drop_id)
  with s have "s = a @ ''data: '' @ (drop (length ''data: '') line @ b)"
    by (metis append.assoc)
  then show ?thesis unfolding str_includes_iff by blast
qed

lemma no_empty_content:
  "ContentEvent (JStr []) \<notin> set (events (transformedStream parse chatId responseId reads))"
proof
  assume a: "ContentEvent (JStr []) \<in> set (events (transformedStream parse chatId responseId reads))"
  have "ContentEvent (JStr []) \<notin> set (chat_id_events chatId)"
    by (simp add: chat_id_events_def split: option.splits)
  moreover have "ContentEvent (JStr []) \<notin> set (fst (read_loop parse [] reads))"
    using read_loop_content [of "ContentEvent (JStr [])" parse "[]" reads] by auto
  ultimately show False
    using a by (cases "first_throw reads") (auto simp: transformedStream_closed transformedStream_errored)
qed

text \<open>
  C4, as the code has it. Take a complete line of the buffered text (one of the lines
  split off at a read) that no line carrying the \<^verbatim>\<open>[DONE]\<close> sentinel precedes among the
  lines split off at the same read. If it starts with \<^verbatim>\<open>data: \<close> and its payload, the
  rest of the line stripped of surrounding white space, is non-empty, is not the
  sentinel and is rejected by the JSON decoder, then that read enqueues a content event
  whose data is the payload, between the events of the lines before it and of the lines
  after it. And no content event with an empty string as data is ever enqueued.
\<close>

theorem malformed_payload_forwarded:
  assumes "butlast (split_nl (buffer @ chunk)) = pre @ line # post"
    and "\<not> list_ex is_done_line pre"
    and "startsWith line ''data: ''"
    and "trim (drop 6 line) \<noteq> []"
    and "trim (drop 6 line) \<noteq> ''[DONE]''"
    and "parse (trim (drop 6 line)) = None"
  shows "fst (on_chunk parse buffer chunk) =
           process_lines parse pre @
           ContentEvent (JStr (trim (drop 6 line))) # process_lines parse post \<and>
         ContentEvent (JStr []) \<notin> set (events (transformedStream parse chatId responseId reads))"
proof -
  have m: "str_includes (buffer @ chunk) ''data: ''"
    using assms(1,3) by (rule complete_line_marks_buffer)
  have "fst (on_chunk parse buffer chunk) = process_lines parse (pre @ line # post)"
    using m assms(1) by (simp add: on_chunk_def Let_def)
  also have "\<dots> = process_lines parse pre @ process_lines parse (line # post)"
    using assms(2) by (rule process_lines_append)
  also have "process_lines parse (line # post) =
      ContentEvent (JStr (trim (drop 6 line))) # process_lines parse post"
    using assms(3-6) by (rule process_lines_malformed)
  finally show ?thesis by (simp add: no_empty_content)
qed

theorem malformed_payload_forwarded_witness:
  "fst (on_chunk (map_of []) ''data: not'' ''-json\<newline>\<newline>da'') =
     process_lines (map_of []) [] @
     ContentEvent (JStr ''not-json'') # process_lines (map_of []) [''''] \<and>
   ContentEvent (JStr []) \<notin>
     set (events (transformedStream (map_of []) None ''resp-1''
            [Chunk ''data: not'', Chunk ''-json\<newline>\<newline>da'']))"
proof -
  have 1: "butlast (split_nl (''data: not'' @ ''-json\<newline>\<newline>da'')) =
             [] @ ''data: not-json'' # ['''']"
    by simp
  have 2: "\<not> list_ex is_done_line []" by simp
  have 3: "startsWith ''data: not-json'' ''data: ''" by (simp add: startsWith_def)
  have t: "trim (drop 6 ''data: not-json'') = ''not-json''"
    by (simp add: trim_def is_space_def)
  have 4: "trim (drop 6 ''data: not-json'') \<noteq> []" unfolding t by simp
  have 5: "trim (drop 6 ''data: not-json'') \<noteq> ''[DONE]''" unfolding t by simp
  have 6: "map_of [] (trim (drop 6 ''data: not-json'')) = (None :: json option)" by simp
  note w = malformed_payload_forwarded [where pre = "[]" and post = "['''']"
      and line = "''data: not-json''" and parse = "map_of []"
      and buffer = "''data: not''" and chunk = "''-json\<newline>\<newline>da''", OF 1 2 3 4 5 6]
  from w [unfolded t] show ?thesis .
qed

text \<open>C4 as stated fails for a line that follows a sentinel line in the same read: its
  payload is not JSON, and nothing is enqueued for it. The payload that is forwarded is
  the stripped one.\<close>

theorem payload_after_done_counterexample:
  "events (transformedStream (map_of []) None ''resp-1''
     [Chunk ''data: [DONE]\<newline>data: not-json\<newline>'']) = [DoneEvent ''resp-1''] \<and>
   events (transformedStream (map_of []) None ''resp-1'' [Chunk ''data:   not-json  \<newline>'']) =
     [ContentEvent (JStr ''not-json''), DoneEvent ''resp-1'']"
  by code_simp

section \<open>Properties of the tool loop\<close>

subsection \<open>One batch of tool calls\<close>

lemma executed_append: "executed e ts t (xs @ ys) = executed e ts t xs @ executed e ts t ys"
  by (induction xs) (auto split: option.splits)

lemma run_tool_call_toolCall:
  "run_tool_call e ts t tc = Some ex \<Longrightarrow> exec_toolCall ex = tc"
  by (auto simp: run_tool_call_def failed_execution_def split: sum.splits option.splits prod.splits)

lemma run_tool_call_present:
  assumes "find_tool ts (function_name tc) = Some found"
  shows "\<exists>ex. run_tool_call e ts t tc = Some ex"
  using assms by (auto simp: run_tool_call_def split: sum.splits prod.splits)

lemma executed_member:
  "tc \<in> set calls \<Longrightarrow> run_tool_call e ts t tc = Some ex \<Longrightarrow> ex \<in> set (executed e ts t calls)"
  by (induction calls) (auto split: option.splits)

lemma executed_calls:
  "map exec_toolCall (executed e ts t calls) =
     filter (\<lambda>tc. run_tool_call e ts t tc \<noteq> None) calls"
  by (induction calls) (auto split: option.splits dest: run_tool_call_toolCall)

lemma foldl_record_settled:
  "foldl record_settled st (map (run_tool_call e ts t) calls) =
     st\<lparr>timeSegments := timeSegments st @ map tool_segment (executed e ts t calls),
        toolResults := toolResults st @
          map (\<lambda>ex. result_output (exec_result ex))
            (filter (\<lambda>ex. success (exec_result ex)) (executed e ts t calls)),
        toolCalls := toolCalls st @ map call_record (executed e ts t calls),
        currentMessages := currentMessages st @ map tool_message (executed e ts t calls)\<rparr>"
proof (induction calls arbitrary: st)
  case Nil
  then show ?case by simp
next
  case (Cons tc calls)
  show ?case
  proof (cases "run_tool_call e ts t tc")
    case None
    then show ?thesis using Cons.IH [of st] by simp
  next
    case (Some ex)
    then show ?thesis
      using Cons.IH [of "record_settled st (Some ex)"] by simp
  qed
qed

lemma successful_outputs_append:
  "successful_outputs (xs @ ys) = successful_outputs xs @ successful_outputs ys"
  by (simp add: successful_outputs_def)

lemma successful_outputs_call_record:
  "successful_outputs (map call_record exs) =
     map (\<lambda>ex. result_output (exec_result ex)) (filter (\<lambda>ex. success (exec_result ex)) exs)"
  by (induction exs) (auto simp: successful_outputs_def call_record_def resultContent_def)

lemma tool_segments_only: "filter is_tool_segment (map tool_segment exs) = map tool_segment exs"
  by (induction exs) (auto simp: tool_segment_def)

text \<open>What an iteration that returns has done to the variables.\<close>

lemma tool_iteration_Inr:
  assumes "tool_iteration e ts st calls = Inr st'"
  shows "\<exists>r d. create e (currentMessages st @ AssistantToolCalls calls #
                    map tool_message (executed e ts (now st) calls)) = (Inr r, d) \<and>
           currentResponse st' = r \<and>
           toolCalls st' = toolCalls st @ map call_record (executed e ts (now st) calls) \<and>
           toolResults st' = toolResults st @
             successful_outputs (map call_record (executed e ts (now st) calls)) \<and>
           butlast (timeSegments st') =
             timeSegments st @ map tool_segment (executed e ts (now st) calls) \<and>
           segment_type (last (timeSegments st')) = ModelSegment \<and>
           tokens st' = add_usage (tokens st) (usage r) \<and>
           content st' = updated_content (content st) r \<and>
           iterationCount st' = iterationCount st + 1"
  using assms
  by (auto simp: tool_iteration_def Let_def foldl_record_settled butlast_append
      successful_outputs_call_record split: prod.splits sum.splits)

lemma tool_iteration_Inl:
  assumes "tool_iteration e ts st calls = Inl (err, t)"
  shows "\<exists>d. create e (currentMessages st @ AssistantToolCalls calls #
                    map tool_message (executed e ts (now st) calls)) = (Inl err, d)"
  using assms
  by (auto simp: tool_iteration_def Let_def foldl_record_settled split: prod.splits sum.splits)

lemma tool_iteration_returns:
  assumes "\<forall>ms. \<exists>c d. create e ms = (Inr c, d)"
  shows "\<exists>s'. tool_iteration e ts s calls = Inr s'"
proof -
  let ?ms = "currentMessages (foldl record_settled
      (s\<lparr>currentMessages := currentMessages s @ [AssistantToolCalls calls]\<rparr>)
      (map (run_tool_call e ts (now s)) calls))"
  from assms obtain c d where "create e ?ms = (Inr c, d)" by blast
  then show ?thesis by (simp add: tool_iteration_def Let_def)
qed

lemma run_tool_call_startTime:
  "run_tool_call e ts t tc = Some ex \<Longrightarrow> exec_startTime ex = t"
  by (auto simp: run_tool_call_def failed_execution_def split: sum.splits option.splits prod.splits)

lemma executed_set:
  "ex \<in> set (executed e ts t calls) \<Longrightarrow> \<exists>tc\<in>set calls. run_tool_call e ts t tc = Some ex"
  by (induction calls) (auto split: option.splits)

lemma settled_at_mono: "t \<le> settled_at t rs"
proof (induction rs arbitrary: t)
  case Nil
  then show ?case by simp
next
  case (Cons r rs)
  show ?case
  proof (cases r)
    case None
    then show ?thesis using Cons.IH [of t] by simp
  next
    case (Some ex)
    then show ?thesis using Cons.IH [of "max t (exec_endTime ex)"] by simp
  qed
qed

lemma settled_at_ge: "Some ex \<in> set rs \<Longrightarrow> exec_endTime ex \<le> settled_at t rs"
proof (induction rs arbitrary: t)
  case Nil
  then show ?case by simp
next
  case (Cons r rs)
  show ?case
  proof (cases "r = Some ex")
    case True
    then show ?thesis
      using settled_at_mono [of "max t (exec_endTime ex)" rs] by simp
  next
    case False
    with Cons.prems have "Some ex \<in> set rs" by simp
    then show ?thesis
      using Cons.IH [of t] Cons.IH [of "max t (exec_endTime (the r))"] by (cases r) simp_all
  qed
qed

lemma executed_fan_out:
  "list_all (\<lambda>ex. exec_startTime ex = t \<and>
                  exec_endTime ex \<le> settled_at t (map (run_tool_call e ts t) calls))
     (executed e ts t calls)"
proof -
  have "exec_startTime ex = t \<and> exec_endTime ex \<le> settled_at t (map (run_tool_call e ts t) calls)"
    if "ex \<in> set (executed e ts t calls)" for ex
  proof -
    from executed_set [OF that] obtain tc where
      tc: "tc \<in> set calls" "run_tool_call e ts t tc = Some ex" by blast
    then have "Some ex \<in> set (map (run_tool_call e ts t) calls)" by force
    then show ?thesis
      using run_tool_call_startTime [OF tc(2)] settled_at_ge by blast
  qed
  then show ?thesis by (simp add: list_all_iff)
qed

text \<open>What the callback resolves with, outcome by outcome.\<close>

lemma run_tool_call_parse_failed:
  "json_parse e (function_arguments tc) = Inl err \<Longrightarrow>
   run_tool_call e ts t tc = Some (failed_execution tc err t t)"
  by (simp add: run_tool_call_def)

lemma run_tool_call_outcome:
  assumes "find_tool ts (function_name tc) = Some found"
  shows "(case json_parse e (function_arguments tc) of
            Inl err \<Rightarrow> run_tool_call e ts t tc = Some (failed_execution tc err t t)
          | Inr toolArgs \<Rightarrow>
              (case prepareToolExecution e found toolArgs of
                 Inl err \<Rightarrow> run_tool_call e ts t tc = Some (failed_execution tc err t t)
               | Inr (params, executionParams) \<Rightarrow>
                   (case executeTool e (function_name tc) executionParams of
                      (Inl err, d) \<Rightarrow>
                        run_tool_call e ts t tc = Some (failed_execution tc err t (t + d))
                    | (Inr r, d) \<Rightarrow>
                        run_tool_call e ts t tc =
                          Some \<lparr>exec_toolCall = tc, exec_toolName = function_name tc,
                                exec_toolParams = params, exec_result = r,
                                exec_startTime = t, exec_endTime = t + d,
                                exec_duration = d\<rparr>)))"
  using assms
  by (simp add: run_tool_call_def split: sum.splits prod.splits)

lemma failed_execution_recorded:
  "record_name (call_record (failed_execution tc err a b)) = function_name tc \<and>
   record_success (call_record (failed_execution tc err a b)) = False \<and>
   record_result (call_record (failed_execution tc err a b)) =
     ErrorPayload
       (if error_message err \<noteq> [] then error_message err else ''Tool execution failed'')
       (function_name tc) \<and>
   tool_segment (failed_execution tc err a b) =
     \<lparr>segment_type = ToolSegment, segment_name = function_name tc,
      segment_startTime = a, segment_endTime = b, segment_duration = b - a\<rparr> \<and>
   tool_message (failed_execution tc err a b) =
     ToolMessage (call_id tc)
       (ErrorPayload
          (if error_message err \<noteq> [] then error_message err else ''Tool execution failed'')
          (function_name tc))"
  by (simp add: call_record_def failed_execution_def resultContent_def tool_segment_def
      tool_message_def)

lemma execution_recorded:
  "record_name (call_record ex) = exec_toolName ex \<and>
   record_success (call_record ex) = success (exec_result ex) \<and>
   record_result (call_record ex) =
     (if success (exec_result ex) then Output (result_output (exec_result ex))
      else ErrorPayload
             (case result_error (exec_result ex) of
                None \<Rightarrow> ''Tool execution failed''
              | Some m \<Rightarrow> (if m \<noteq> [] then m else ''Tool execution failed''))
             (exec_toolName ex)) \<and>
   segment_type (tool_segment ex) = ToolSegment \<and>
   segment_name (tool_segment ex) = exec_toolName ex"
  by (simp add: call_record_def resultContent_def tool_segment_def)

lemma tool_iteration_messages:
  assumes "tool_iteration e ts st calls = Inr st'"
  shows "currentMessages st' =
           currentMessages st @ AssistantToolCalls calls #
             map tool_message (executed e ts (now st) calls)"
  using assms
  by (auto simp: tool_iteration_def Let_def foldl_record_settled split: prod.splits sum.splits)

lemma tool_iteration_segments:
  assumes "tool_iteration e ts st calls = Inr st'"
  shows "filter is_tool_segment (timeSegments st') =
           filter is_tool_segment (timeSegments st) @
           map tool_segment (executed e ts (now st) calls)"
  using assms
  by (auto simp: tool_iteration_def Let_def foldl_record_settled tool_segments_only
      split: prod.splits sum.splits)

text \<open>
  C6. A batch of tool calls is started at \<open>now st\<close>. For a call whose tool is in the tool
  set, the callback resolves with an execution whatever happens: a failed execution
  carrying the message of what was thrown when decoding the arguments, preparing the
  call or running the tool throws, and otherwise an execution carrying just what the
  tool returned, success or failure. A failed execution is recorded with \<open>success\<close>
  false and an error payload, any execution with the \<open>success\<close> of its result and its
  output or an error payload, each with a tool segment. Whatever a call resolves with
  is among the executions of the batch, whatever its siblings did: the executions are,
  in order, those of the calls that did not resolve with null, they split along the
  batch, each starts at the instant the batch starts and has ended when the join
  resolves. The iteration then issues the next model call, at the instant of the join,
  on the conversation extended by the assistant turn and one tool message per
  execution: if that call rejects the iteration leaves with the rejection, and
  otherwise \<open>toolCalls\<close> has grown by one record per execution and the tool segments by
  one segment per execution, in the same order.
\<close>

theorem tool_batch_outcomes_captured:
  "(find_tool ts (function_name tc) = Some found \<longrightarrow>
      (case json_parse e (function_arguments tc) of
         Inl err \<Rightarrow>
           run_tool_call e ts (now st) tc = Some (failed_execution tc err (now st) (now st))
       | Inr toolArgs \<Rightarrow>
           (case prepareToolExecution e found toolArgs of
              Inl err \<Rightarrow>
                run_tool_call e ts (now st) tc =
                  Some (failed_execution tc err (now st) (now st))
            | Inr (params, executionParams) \<Rightarrow>
                (case executeTool e (function_name tc) executionParams of
                   (Inl err, d) \<Rightarrow>
                     run_tool_call e ts (now st) tc =
                       Some (failed_execution tc err (now st) (now st + d))
                 | (Inr r, d) \<Rightarrow>
                     run_tool_call e ts (now st) tc =
                       Some \<lparr>exec_toolCall = tc, exec_toolName = function_name tc,
                             exec_toolParams = params, exec_result = r,
                             exec_startTime = now st, exec_endTime = now st + d,
                             exec_duration = d\<rparr>)))) \<and>
   (record_name (call_record (failed_execution tc err a b)) = function_name tc \<and>
    record_success (call_record (failed_execution tc err a b)) = False \<and>
    record_result (call_record (failed_execution tc err a b)) =
      ErrorPayload
        (if error_message err \<noteq> [] then error_message err else ''Tool execution failed'')
        (function_name tc) \<and>
    segment_type (tool_segment (failed_execution tc err a b)) = ToolSegment) \<and>
   (record_name (call_record ex) = exec_toolName ex \<and>
    record_success (call_record ex) = success (exec_result ex) \<and>
    record_result (call_record ex) =
      (if success (exec_result ex) then Output (result_output (exec_result ex))
       else ErrorPayload
              (case result_error (exec_result ex) of
                 None \<Rightarrow> ''Tool execution failed''
               | Some m \<Rightarrow> (if m \<noteq> [] then m else ''Tool execution failed''))
              (exec_toolName ex)) \<and>
    segment_type (tool_segment ex) = ToolSegment) \<and>
   (tc \<in> set calls \<and> run_tool_call e ts (now st) tc = Some ex \<longrightarrow>
      ex \<in> set (executed e ts (now st) calls)) \<and>
   map exec_toolCall (executed e ts (now st) calls) =
     filter (\<lambda>c. run_tool_call e ts (now st) c \<noteq> None) calls \<and>
   executed e ts (now st) (xs @ tc # ys) =
     executed e ts (now st) xs @ executed e ts (now st) [tc] @ executed e ts (now st) ys \<and>
   list_all (\<lambda>x. exec_startTime x = now st \<and>
               exec_endTime x \<le> settled_at (now st) (map (run_tool_call e ts (now st)) calls))
     (executed e ts (now st) calls) \<and>
   (case create e (currentMessages st @ AssistantToolCalls calls #
                    map tool_message (executed e ts (now st) calls)) of
      (Inl err, d) \<Rightarrow> (\<exists>t. tool_iteration e ts st calls = Inl (err, t))
    | (Inr r, d) \<Rightarrow>
        (\<exists>st'. tool_iteration e ts st calls = Inr st' \<and>
           currentResponse st' = r \<and>
           currentMessages st' =
             currentMessages st @ AssistantToolCalls calls #
               map tool_message (executed e ts (now st) calls) \<and>
           toolCalls st' = toolCalls st @ map call_record (executed e ts (now st) calls) \<and>
           filter is_tool_segment (timeSegments st') =
             filter is_tool_segment (timeSegments st) @
             map tool_segment (executed e ts (now st) calls) \<and>
           segment_startTime (last (timeSegments st')) =
             settled_at (now st) (map (run_tool_call e ts (now st)) calls)))"
proof -
  have a: "find_tool ts (function_name tc) = Some found \<longrightarrow>
      (case json_parse e (function_arguments tc) of
         Inl err \<Rightarrow>
           run_tool_call e ts (now st) tc = Some (failed_execution tc err (now st) (now st))
       | Inr toolArgs \<Rightarrow>
           (case prepareToolExecution e found toolArgs of
              Inl err \<Rightarrow>
                run_tool_call e ts (now st) tc =
                  Some (failed_execution tc err (now st) (now st))
            | Inr (params, executionParams) \<Rightarrow>
                (case executeTool e (function_name tc) executionParams of
                   (Inl err, d) \<Rightarrow>
                     run_tool_call e ts (now st) tc =
                       Some (failed_execution tc err (now st) (now st + d))
                 | (Inr r, d) \<Rightarrow>
                     run_tool_call e ts (now st) tc =
                       Some \<lparr>exec_toolCall = tc, exec_toolName = function_name tc,
                             exec_toolParams = params, exec_result = r,
                             exec_startTime = now st, exec_endTime = now st + d,
                             exec_duration = d\<rparr>)))"
    using run_tool_call_outcome [of ts tc found e "now st"] by blast
  have b: "record_name (call_record (failed_execution tc err a b)) = function_name tc \<and>
    record_success (call_record (failed_execution tc err a b)) = False \<and>
    record_result (call_record (failed_execution tc err a b)) =
      ErrorPayload
        (if error_message err \<noteq> [] then error_message err else ''Tool execution failed'')
        (function_name tc) \<and>
    segment_type (tool_segment (failed_execution tc err a b)) = ToolSegment"
    using failed_execution_recorded [of tc err a b] by simp
  have c: "record_name (call_record ex) = exec_toolName ex \<and>
    record_success (call_record ex) = success (exec_result ex) \<and>
    record_result (call_record ex) =
      (if success (exec_result ex) then Output (result_output (exec_result ex))
       else ErrorPayload
              (case result_error (exec_result ex) of
                 None \<Rightarrow> ''Tool execution failed''
               | Some m \<Rightarrow> (if m \<noteq> [] then m else ''Tool execution failed''))
              (exec_toolName ex)) \<and>
    segment_type (tool_segment ex) = ToolSegment"
    using execution_recorded [of ex] by simp
  have d: "tc \<in> set calls \<and> run_tool_call e ts (now st) tc = Some ex \<longrightarrow>
      ex \<in> set (executed e ts (now st) calls)"
    using executed_member [of tc calls e ts "now st" ex] by blast
  have f: "map exec_toolCall (executed e ts (now st) calls) =
     filter (\<lambda>c. run_tool_call e ts (now st) c \<noteq> None) calls"
    by (rule executed_calls)
  have g: "executed e ts (now st) (xs @ tc # ys) =
           executed e ts (now st) xs @ executed e ts (now st) [tc] @ executed e ts (now st) ys"
    using executed_append [of e ts "now st" xs "[tc] @ ys"]
      executed_append [of e ts "now st" "[tc]" ys] by simp
  have h: "list_all (\<lambda>x. exec_startTime x = now st \<and>
               exec_endTime x \<le> settled_at (now st) (map (run_tool_call e ts (now st)) calls))
     (executed e ts (now st) calls)"
    by (rule executed_fan_out)
  let ?ms = "currentMessages st @ AssistantToolCalls calls #
               map tool_message (executed e ts (now st) calls)"
  have i: "(case create e ?ms of
      (Inl err, d) \<Rightarrow> (\<exists>t. tool_iteration e ts st calls = Inl (err, t))
    | (Inr r, d) \<Rightarrow>
        (\<exists>st'. tool_iteration e ts st calls = Inr st' \<and>
           currentResponse st' = r \<and>
           currentMessages st' = ?ms \<and>
           toolCalls st' = toolCalls st @ map call_record (executed e ts (now st) calls) \<and>
           filter is_tool_segment (timeSegments st') =
             filter is_tool_segment (timeSegments st) @
             map tool_segment (executed e ts (now st) calls) \<and>
           segment_startTime (last (timeSegments st')) =
             settled_at (now st) (map (run_tool_call e ts (now st)) calls)))"
  proof (cases "create e ?ms")
    case (Pair outcome d)
    show ?thesis
    proof (cases outcome)
      case (Inl err)
      with Pair show ?thesis
        by (simp add: tool_iteration_def Let_def foldl_record_settled)
    next
      case (Inr r)
      with Pair show ?thesis
        by (simp add: tool_iteration_def Let_def foldl_record_settled tool_segments_only)
    qed
  qed
  show ?thesis
    by (intro conjI) (rule a, (rule b [THEN conjunct1] b [THEN conjunct2, THEN conjunct1]
      b [THEN conjunct2, THEN conjunct2, THEN conjunct1]
      b [THEN conjunct2, THEN conjunct2, THEN conjunct2])+,
      (rule c [THEN conjunct1] c [THEN conjunct2, THEN conjunct1]
      c [THEN conjunct2, THEN conjunct2, THEN conjunct1]
      c [THEN conjunct2, THEN conjunct2, THEN conjunct2])+, rule d, rule f, rule g, rule h, rule i)
qed

theorem tool_batch_outcomes_captured_witness:
  "run_tool_call
     (example_env [] (answering ''done'')
        [(''a'', Inl (ErrorObj ''boom''), 3), (''b'', refuses ''denied'', 4),
         (''c'', succeeds JNull, 2)])
     (Some [example_tool ''a'', example_tool ''b'', example_tool ''c''])
     (now (initial_state (example_request [''a'', ''b'', ''c'']) 0 (answering []) 10))
     (example_call (''a'', ''{}'')) =
     Some (failed_execution (example_call (''a'', ''{}'')) (ErrorObj ''boom'')
        (now (initial_state (example_request [''a'', ''b'', ''c'']) 0 (answering []) 10))
        (now (initial_state (example_request [''a'', ''b'', ''c'']) 0 (answering []) 10) + 3)) \<and>
   failed_execution (example_call (''a'', ''{}'')) (ErrorObj ''boom'')
        (now (initial_state (example_request [''a'', ''b'', ''c'']) 0 (answering []) 10))
        (now (initial_state (example_request [''a'', ''b'', ''c'']) 0 (answering []) 10) + 3)
     \<in> set (executed
        (example_env [] (answering ''done'')
           [(''a'', Inl (ErrorObj ''boom''), 3), (''b'', refuses ''denied'', 4),
            (''c'', succeeds JNull, 2)])
        (Some [example_tool ''a'', example_tool ''b'', example_tool ''c''])
        (now (initial_state (example_request [''a'', ''b'', ''c'']) 0 (answering []) 10))
        [example_call (''a'', ''{}''), example_call (''b'', ''{}''), example_call (''c'', ''{}'')]) \<and>
   map record_success
     (recorded_calls
        (executeRequest_batch
           (example_env [calling [] [(''a'', ''{}''), (''b'', ''{}''), (''c'', ''{}'')]]
              (answering ''done'')
              [(''a'', Inl (ErrorObj ''boom''), 3), (''b'', refuses ''denied'', 4),
               (''c'', succeeds JNull, 2)])
           3 (example_request [''a'', ''b'', ''c'']) 0)) = [False, False, True] \<and>
   map record_result
     (recorded_calls
        (executeRequest_batch
           (example_env [calling [] [(''a'', ''{}''), (''b'', ''{}''), (''c'', ''{}'')]]
              (answering ''done'')
              [(''a'', Inl (ErrorObj ''boom''), 3), (''b'', refuses ''denied'', 4),
               (''c'', succeeds JNull, 2)])
           3 (example_request [''a'', ''b'', ''c'']) 0)) =
     [ErrorPayload ''boom'' ''a'', ErrorPayload ''denied'' ''b'', Output (Some JNull)]"
proof -
  let ?e = "example_env [] (answering ''done'')
        [(''a'', Inl (ErrorObj ''boom''), 3), (''b'', refuses ''denied'', 4),
         (''c'', succeeds JNull, 2)]"
  let ?ts = "Some [example_tool ''a'', example_tool ''b'', example_tool ''c'']"
  let ?st = "initial_state (example_request [''a'', ''b'', ''c'']) 0 (answering []) 10"
  let ?tc = "example_call (''a'', ''{}'')"
  let ?calls = "[example_call (''a'', ''{}''), example_call (''b'', ''{}''),
      example_call (''c'', ''{}'')]"
  let ?ex = "failed_execution ?tc (ErrorObj ''boom'') (now ?st) (now ?st + 3)"
  note w = tool_batch_outcomes_captured [where e = ?e and ts = ?ts and st = ?st and tc = ?tc
      and found = "example_tool ''a''" and calls = ?calls and ex = ?ex]
  have 1: "find_tool ?ts (function_name ?tc) = Some (example_tool ''a'')"
    by (simp add: find_tool_def example_tool_def example_call_def)
  have 2: "json_parse ?e (function_arguments ?tc) = Inr (JObj [])"
    by (simp add: example_env_def decode_table_def example_call_def)
  have 3: "prepareToolExecution ?e (example_tool ''a'') (JObj []) = Inr (JObj [], JObj [])"
    by (simp add: example_env_def)
  have 4: "executeTool ?e (function_name ?tc) (JObj []) = (Inl (ErrorObj ''boom''), 3)"
    by (simp add: example_env_def tool_table_def example_call_def)
  from w [THEN conjunct1] 1 2 3 4
  have r: "run_tool_call ?e ?ts (now ?st) ?tc = Some ?ex" by simp
  have 5: "?tc \<in> set ?calls" by simp
  from w [THEN conjunct2, THEN conjunct2, THEN conjunct2, THEN conjunct1] 5 r
  have m: "?ex \<in> set (executed ?e ?ts (now ?st) ?calls)" by blast
  have s: "map record_success
     (recorded_calls
        (executeRequest_batch
           (example_env [calling [] [(''a'', ''{}''), (''b'', ''{}''), (''c'', ''{}'')]]
              (answering ''done'')
              [(''a'', Inl (ErrorObj ''boom''), 3), (''b'', refuses ''denied'', 4),
               (''c'', succeeds JNull, 2)])
           3 (example_request [''a'', ''b'', ''c'']) 0)) = [False, False, True]"
    by code_simp
  have t: "map record_result
     (recorded_calls
        (executeRequest_batch
           (example_env [calling [] [(''a'', ''{}''), (''b'', ''{}''), (''c'', ''{}'')]]
              (answering ''done'')
              [(''a'', Inl (ErrorObj ''boom''), 3), (''b'', refuses ''denied'', 4),
               (''c'', succeeds JNull, 2)])
           3 (example_request [''a'', ''b'', ''c'']) 0)) =
     [ErrorPayload ''boom'' ''a'', ErrorPayload ''denied'' ''b'', Output (Some JNull)]"
    by code_simp
  from r m s t show ?thesis by (intro conjI)
qed

subsection \<open>The loop\<close>


text \<open>A property that the content update and every returning iteration preserve holds
  when the loop returns.\<close>

lemma tool_loop_invariant:
  assumes "tool_loop e ts m st = Inr st'"
    and "P st"
    and "\<And>s. P s \<Longrightarrow> P (s\<lparr>content := updated_content (content s) (currentResponse s)\<rparr>)"
    and "\<And>s calls s'. P s \<Longrightarrow> tool_iteration e ts s calls = Inr s' \<Longrightarrow> P s'"
  shows "P st'"
  using assms
proof (induction e ts m st rule: tool_loop.induct)
  case (1 e ts m st)
  note upd = "1.prems"(3) and step = "1.prems"(4)
  show ?case
  proof (cases "iterationCount st < m")
    case False
    with "1.prems"(1,2) show ?thesis by (simp add: tool_loop.simps [of e ts m st])
  next
    case True
    let ?st1 = "st\<lparr>content := updated_content (content st) (currentResponse st)\<rparr>"
    have p1: "P ?st1" using "1.prems"(2) by (rule upd)
    show ?thesis
    proof (cases "first_tool_calls (currentResponse st)")
      case None
      with True "1.prems"(1) p1 show ?thesis by (auto simp: tool_loop.simps [of e ts m st])
    next
      case (Some calls)
      show ?thesis
      proof (cases "calls = []")
        case True
        with \<open>iterationCount st < m\<close> Some "1.prems"(1) p1 show ?thesis
          by (auto simp: tool_loop.simps [of e ts m st])
      next
        case False
        from "1.prems"(1) True Some False
        obtain st2 where it: "tool_iteration e ts ?st1 calls = Inr st2"
          and rest: "tool_loop e ts m st2 = Inr st'"
          by (auto simp: tool_loop.simps [of e ts m st] Let_def split: sum.splits)
        have p2: "P st2" using p1 it by (rule step)
        show ?thesis
          by (rule "1.IH" [OF True refl Some False it rest p2 upd step])
      qed
    qed
  qed
qed



lemma executeRequest_batch_Inr:
  assumes "executeRequest_batch e m request t0 = Inr r"
  shows "\<exists>c d st. create e (allMessages request) = (Inr c, d) \<and>
           tool_loop e (tools request) m (initial_state request t0 c d) = Inr st \<and>
           r = provider_response_of request t0 d st"
  using assms
  by (auto simp: executeRequest_batch_def Let_def split: prod.splits sum.splits)




subsection \<open>The cap on the iterations\<close>




subsection \<open>Order and content of the records\<close>

lemma tool_loop_results:
  assumes "tool_loop e ts m st = Inr st'"
    and "toolResults st = successful_outputs (toolCalls st)"
  shows "toolResults st' = successful_outputs (toolCalls st')"
proof (rule tool_loop_invariant [OF assms(1), where P = "\<lambda>s. toolResults s = successful_outputs (toolCalls s)"])
  show "toolResults st = successful_outputs (toolCalls st)" by (rule assms(2))
next
  fix s :: loop_state
  assume "toolResults s = successful_outputs (toolCalls s)"
  then show "toolResults (s\<lparr>content := updated_content (content s) (currentResponse s)\<rparr>) =
      successful_outputs (toolCalls (s\<lparr>content := updated_content (content s) (currentResponse s)\<rparr>))"
    by simp
next
  fix s calls s'
  assume p: "toolResults s = successful_outputs (toolCalls s)"
    and it: "tool_iteration e ts s calls = Inr s'"
  from tool_iteration_Inr [OF it] p
  show "toolResults s' = successful_outputs (toolCalls s')"
    by (auto simp: successful_outputs_append)
qed

lemma executeRequest_batch_results:
  assumes "executeRequest_batch e m request t0 = Inr r"
  shows "\<exists>st::loop_state. recorded_calls (Inr r) = toolCalls st \<and>
           response_toolCalls r = (if toolCalls st = [] then None else Some (toolCalls st)) \<and>
           response_toolResults r =
             (if successful_outputs (toolCalls st) = [] then None
              else Some (successful_outputs (toolCalls st)))"
proof -
  from executeRequest_batch_Inr [OF assms] obtain c d st where
    l: "tool_loop e (tools request) m (initial_state request t0 c d) = Inr st"
    and r: "r = provider_response_of request t0 d st" by blast
  have "toolResults (initial_state request t0 c d) =
          successful_outputs (toolCalls (initial_state request t0 c d))"
    by (simp add: initial_state_def successful_outputs_def)
  from tool_loop_results [OF l this] have "toolResults st = successful_outputs (toolCalls st)" .
  with r have "recorded_calls (Inr r) = toolCalls st \<and>
           response_toolCalls r = (if toolCalls st = [] then None else Some (toolCalls st)) \<and>
           response_toolResults r =
             (if successful_outputs (toolCalls st) = [] then None
              else Some (successful_outputs (toolCalls st)))"
    by (simp add: provider_response_of_def Let_def recorded_calls_def)
  then show ?thesis by blast
qed

text \<open>
  C7, as the code has it. An iteration that returns has appended one record and one tool
  segment per execution of its batch, in the order in which the model listed the calls
  (the executions are the listed calls that did not resolve with null, in that order),
  followed by the segment of the next model call; and it has appended to
  \<open>toolResults\<close> the outputs of the successful ones among those records, in the same
  order. In the returned object \<open>toolResults\<close> holds exactly the outputs of the
  successful records of \<open>toolCalls\<close>, in their order.
\<close>

theorem tool_records_in_issue_order:
  "(tool_iteration e ts st calls = Inr st' \<longrightarrow>
      toolCalls st' = toolCalls st @ map call_record (executed e ts (now st) calls) \<and>
      map exec_toolCall (executed e ts (now st) calls) =
        filter (\<lambda>tc. run_tool_call e ts (now st) tc \<noteq> None) calls \<and>
      toolResults st' = toolResults st @
        successful_outputs (map call_record (executed e ts (now st) calls)) \<and>
      butlast (timeSegments st') =
        timeSegments st @ map tool_segment (executed e ts (now st) calls) \<and>
      segment_type (last (timeSegments st')) = ModelSegment) \<and>
   (executeRequest_batch e m request t0 = Inr r \<longrightarrow>
      response_toolResults r =
        (if successful_outputs (recorded_calls (Inr r)) = [] then None
         else Some (successful_outputs (recorded_calls (Inr r)))))"
proof (intro conjI impI)
  assume it: "tool_iteration e ts st calls = Inr st'"
  from tool_iteration_Inr [OF it]
  show "toolCalls st' = toolCalls st @ map call_record (executed e ts (now st) calls)"
    and "toolResults st' = toolResults st @
        successful_outputs (map call_record (executed e ts (now st) calls))"
    and "butlast (timeSegments st') =
        timeSegments st @ map tool_segment (executed e ts (now st) calls)"
    and "segment_type (last (timeSegments st')) = ModelSegment"
    by blast+
  show "map exec_toolCall (executed e ts (now st) calls) =
        filter (\<lambda>tc. run_tool_call e ts (now st) tc \<noteq> None) calls"
    by (rule executed_calls)
next
  assume "executeRequest_batch e m request t0 = Inr r"
  from executeRequest_batch_results [OF this] obtain s :: loop_state where
    "recorded_calls (Inr r) = toolCalls s"
    "response_toolResults r =
       (if successful_outputs (toolCalls s) = [] then None
        else Some (successful_outputs (toolCalls s)))"
    by blast
  then show "response_toolResults r =
        (if successful_outputs (recorded_calls (Inr r)) = [] then None
         else Some (successful_outputs (recorded_calls (Inr r))))"
    by simp
qed

theorem tool_records_in_issue_order_witness:
  "map record_name
     (recorded_calls
        (executeRequest_batch
           (example_env [calling [] [(''slow'', ''{}''), (''ghost'', ''{}''), (''fast'', ''{}'')]]
              (answering ''done'')
              [(''slow'', succeeds (JStr ''s''), 50), (''fast'', succeeds (JStr ''f''), 10)])
           3 (example_request [''slow'', ''fast'']) 0)) = [''slow'', ''fast''] \<and>
   (case executeRequest_batch
           (example_env [calling [] [(''slow'', ''{}''), (''ghost'', ''{}''), (''fast'', ''{}'')]]
              (answering ''done'')
              [(''slow'', succeeds (JStr ''s''), 50), (''fast'', succeeds (JStr ''f''), 10)])
           3 (example_request [''slow'', ''fast'']) 0 of
      Inl err \<Rightarrow> None
    | Inr r \<Rightarrow> response_toolResults r) = Some [Some (JStr ''s''), Some (JStr ''f'')]"
proof -
  let ?e = "example_env [calling [] [(''slow'', ''{}''), (''ghost'', ''{}''), (''fast'', ''{}'')]]
              (answering ''done'')
              [(''slow'', succeeds (JStr ''s''), 50), (''fast'', succeeds (JStr ''f''), 10)]"
  let ?q = "example_request [''slow'', ''fast'']"
  obtain r where r: "executeRequest_batch ?e 3 ?q 0 = Inr r"
    by (cases "executeRequest_batch ?e 3 ?q 0") (simp_all, code_simp)
  have names: "map record_name (recorded_calls (executeRequest_batch ?e 3 ?q 0)) = [''slow'', ''fast'']"
    by code_simp
  have outs: "successful_outputs (recorded_calls (executeRequest_batch ?e 3 ?q 0)) =
      [Some (JStr ''s''), Some (JStr ''f'')]"
    by code_simp
  from tool_records_in_issue_order [of ?e "tools ?q" "initial_state ?q 0 (answering ''done'') 10"
      "[]" "initial_state ?q 0 (answering ''done'') 10" 3 ?q 0 r] r
  have "response_toolResults r =
        (if successful_outputs (recorded_calls (Inr r)) = [] then None
         else Some (successful_outputs (recorded_calls (Inr r))))"
    by blast
  with r outs have res: "(case executeRequest_batch ?e 3 ?q 0 of
      Inl err \<Rightarrow> None
    | Inr r \<Rightarrow> response_toolResults r) = Some [Some (JStr ''s''), Some (JStr ''f'')]"
    by simp
  from names res show ?thesis by blast
qed

text \<open>C7 as stated fails on the order: of two tools dispatched together, the one listed
  first is recorded first although it completes 40 ms after the other.\<close>

theorem completion_order_counterexample:
  "map record_name
     (recorded_calls
        (executeRequest_batch
           (example_env [calling [] [(''slow'', ''{}''), (''fast'', ''{}'')]] (answering ''done'')
              [(''slow'', succeeds (JStr ''s''), 50), (''fast'', succeeds (JStr ''f''), 10)])
           3 (example_request [''slow'', ''fast'']) 0)) = [''slow'', ''fast''] \<and>
   map record_endTime
     (recorded_calls
        (executeRequest_batch
           (example_env [calling [] [(''slow'', ''{}''), (''fast'', ''{}'')]] (answering ''done'')
              [(''slow'', succeeds (JStr ''s''), 50), (''fast'', succeeds (JStr ''f''), 10)])
           3 (example_request [''slow'', ''fast'']) 0)) = [60, 20] \<and>
   \<not> sorted (map record_endTime
     (recorded_calls
        (executeRequest_batch
           (example_env [calling [] [(''slow'', ''{}''), (''fast'', ''{}'')]] (answering ''done'')
              [(''slow'', succeeds (JStr ''s''), 50), (''fast'', succeeds (JStr ''f''), 10)])
           3 (example_request [''slow'', ''fast'']) 0)))"
  by code_simp

subsection \<open>Calls to tools that the request does not have\<close>

text \<open>
  C8, as the code has it. The arguments of a call are decoded before its tool is looked
  up. A call whose tool is not in the tool set and whose arguments decode resolves with
  null: the loop over the results passes it over, the executions of a batch are those
  of the other calls, and an iteration that returns has added records, tool segments
  and tool messages for the other calls only. A call whose arguments do not decode,
  whether its tool is in the tool set or not, resolves with a failed execution: it is
  recorded with \<open>success\<close> false, a tool segment and a tool message carrying the error
  payload, and an iteration that returns has added these at the place of the call.
\<close>

theorem absent_tool_skipped:
  "(find_tool ts (function_name tc) = None \<and> json_parse e (function_arguments tc) = Inr args \<longrightarrow>
      run_tool_call e ts start tc = None \<and>
      record_settled st (run_tool_call e ts start tc) = st \<and>
      executed e ts start (xs @ tc # ys) = executed e ts start xs @ executed e ts start ys \<and>
      (tool_iteration e ts st (xs @ tc # ys) = Inr st' \<longrightarrow>
         toolCalls st' = toolCalls st @
           map call_record (executed e ts (now st) xs @ executed e ts (now st) ys) \<and>
         filter is_tool_segment (timeSegments st') = filter is_tool_segment (timeSegments st) @
           map tool_segment (executed e ts (now st) xs @ executed e ts (now st) ys) \<and>
         currentMessages st' = currentMessages st @ AssistantToolCalls (xs @ tc # ys) #
           map tool_message (executed e ts (now st) xs @ executed e ts (now st) ys))) \<and>
   (json_parse e (function_arguments tc) = Inl err \<longrightarrow>
      run_tool_call e ts start tc = Some (failed_execution tc err start start) \<and>
      executed e ts start (xs @ tc # ys) =
        executed e ts start xs @ failed_execution tc err start start # executed e ts start ys \<and>
      record_name (call_record (failed_execution tc err start start)) = function_name tc \<and>
      record_success (call_record (failed_execution tc err start start)) = False \<and>
      segment_type (tool_segment (failed_execution tc err start start)) = ToolSegment \<and>
      tool_message (failed_execution tc err start start) =
        ToolMessage (call_id tc)
          (ErrorPayload
             (if error_message err \<noteq> [] then error_message err else ''Tool execution failed'')
             (function_name tc)) \<and>
      (tool_iteration e ts st (xs @ tc # ys) = Inr st' \<longrightarrow>
         toolCalls st' = toolCalls st @ map call_record (executed e ts (now st) xs) @
           call_record (failed_execution tc err (now st) (now st)) #
           map call_record (executed e ts (now st) ys) \<and>
         filter is_tool_segment (timeSegments st') = filter is_tool_segment (timeSegments st) @
           map tool_segment (executed e ts (now st) xs) @
           tool_segment (failed_execution tc err (now st) (now st)) #
           map tool_segment (executed e ts (now st) ys) \<and>
         currentMessages st' = currentMessages st @ AssistantToolCalls (xs @ tc # ys) #
           map tool_message (executed e ts (now st) xs) @
           tool_message (failed_execution tc err (now st) (now st)) #
           map tool_message (executed e ts (now st) ys)))"
proof (intro conjI impI)
  assume a: "find_tool ts (function_name tc) = None \<and>
      json_parse e (function_arguments tc) = Inr args"
  then have n: "run_tool_call e ts t tc = None" for t
    by (simp add: run_tool_call_def)
  show "run_tool_call e ts start tc = None" by (rule n)
  show "record_settled st (run_tool_call e ts start tc) = st" by (simp add: n)
  have ex: "executed e ts t (xs @ tc # ys) = executed e ts t xs @ executed e ts t ys" for t
    by (simp add: executed_append n)
  show "executed e ts start (xs @ tc # ys) = executed e ts start xs @ executed e ts start ys"
    by (rule ex)
  assume it: "tool_iteration e ts st (xs @ tc # ys) = Inr st'"
  from tool_iteration_Inr [OF it]
  show "toolCalls st' = toolCalls st @
           map call_record (executed e ts (now st) xs @ executed e ts (now st) ys)"
    by (auto simp: ex)
  from tool_iteration_segments [OF it]
  show "filter is_tool_segment (timeSegments st') = filter is_tool_segment (timeSegments st) @
           map tool_segment (executed e ts (now st) xs @ executed e ts (now st) ys)"
    by (simp add: ex)
  from tool_iteration_messages [OF it]
  show "currentMessages st' = currentMessages st @ AssistantToolCalls (xs @ tc # ys) #
           map tool_message (executed e ts (now st) xs @ executed e ts (now st) ys)"
    by (simp add: ex)
next
  assume a: "json_parse e (function_arguments tc) = Inl err"
  have r: "run_tool_call e ts t tc = Some (failed_execution tc err t t)" for t
    using a by (rule run_tool_call_parse_failed)
  show "run_tool_call e ts start tc = Some (failed_execution tc err start start)" by (rule r)
  have ex: "executed e ts t (xs @ tc # ys) =
      executed e ts t xs @ failed_execution tc err t t # executed e ts t ys" for t
    by (simp add: executed_append r)
  show "executed e ts start (xs @ tc # ys) =
        executed e ts start xs @ failed_execution tc err start start # executed e ts start ys"
    by (rule ex)
  show "record_name (call_record (failed_execution tc err start start)) = function_name tc"
    and "record_success (call_record (failed_execution tc err start start)) = False"
    and "segment_type (tool_segment (failed_execution tc err start start)) = ToolSegment"
    and "tool_message (failed_execution tc err start start) =
        ToolMessage (call_id tc)
          (ErrorPayload
             (if error_message err \<noteq> [] then error_message err else ''Tool execution failed'')
             (function_name tc))"
    using failed_execution_recorded [of tc err start start] by simp_all
  assume it: "tool_iteration e ts st (xs @ tc # ys) = Inr st'"
  from tool_iteration_Inr [OF it]
  show "toolCalls st' = toolCalls st @ map call_record (executed e ts (now st) xs) @
           call_record (failed_execution tc err (now st) (now st)) #
           map call_record (executed e ts (now st) ys)"
    by (auto simp: ex)
  from tool_iteration_segments [OF it]
  show "filter is_tool_segment (timeSegments st') = filter is_tool_segment (timeSegments st) @
           map tool_segment (executed e ts (now st) xs) @
           tool_segment (failed_execution tc err (now st) (now st)) #
           map tool_segment (executed e ts (now st) ys)"
    by (simp add: ex)
  from tool_iteration_messages [OF it]
  show "currentMessages st' = currentMessages st @ AssistantToolCalls (xs @ tc # ys) #
           map tool_message (executed e ts (now st) xs) @
           tool_message (failed_execution tc err (now st) (now st)) #
           map tool_message (executed e ts (now st) ys)"
    by (simp add: ex)
qed

theorem absent_tool_skipped_witness:
  "run_tool_call (example_env [] (answering ''done'') []) (Some [example_tool ''lookup'']) 10
     (example_call (''ghost'', ''{}'')) = None \<and>
   (\<exists>st'. tool_iteration (example_env [] (answering ''done'') []) (Some [example_tool ''lookup''])
            (initial_state (example_request [''lookup'']) 0 (answering []) 10)
            ([] @ example_call (''ghost'', ''{}'') # []) = Inr st' \<and>
          toolCalls st' = [] \<and>
          filter is_tool_segment (timeSegments st') = []) \<and>
   run_tool_call (example_env [] (answering ''done'') []) (Some [example_tool ''lookup'']) 10
     (example_call (''lookup'', ''not json'')) =
     Some (failed_execution (example_call (''lookup'', ''not json''))
       (ErrorObj ''Unexpected token'') 10 10) \<and>
   record_success (call_record (failed_execution (example_call (''lookup'', ''not json''))
       (ErrorObj ''Unexpected token'') 10 10)) = False \<and>
   run_tool_call (example_env [] (answering ''done'') []) (Some [example_tool ''lookup'']) 10
     (example_call (''ghost'', ''not json'')) =
     Some (failed_execution (example_call (''ghost'', ''not json''))
       (ErrorObj ''Unexpected token'') 10 10) \<and>
   (\<exists>st'. tool_iteration (example_env [] (answering ''done'') []) (Some [example_tool ''lookup''])
            (initial_state (example_request [''lookup'']) 0 (answering []) 10)
            ([] @ example_call (''ghost'', ''not json'') # []) = Inr st' \<and>
          map record_name (toolCalls st') = [''ghost''] \<and>
          map record_success (toolCalls st') = [False] \<and>
          map segment_name (filter is_tool_segment (timeSegments st')) = [''ghost''])"
proof -
  let ?e = "example_env [] (answering ''done'') []"
  let ?ts = "Some [example_tool ''lookup'']"
  let ?st = "initial_state (example_request [''lookup'']) 0 (answering []) 10"
  let ?ok = "example_call (''ghost'', ''{}'')"
  let ?bad = "example_call (''ghost'', ''not json'')"
  let ?own = "example_call (''lookup'', ''not json'')"
  have nothrow: "\<forall>ms. \<exists>c d. create ?e ms = (Inr c, d)"
    by (simp add: example_env_def scripted_backend_def)
  have 1: "find_tool ?ts (function_name ?ok) = None \<and>
      json_parse ?e (function_arguments ?ok) = Inr (JObj [])"
    by (simp add: find_tool_def example_tool_def example_call_def example_env_def decode_table_def)
  have 2: "json_parse ?e (function_arguments ?bad) = Inl (ErrorObj ''Unexpected token'')"
    by (simp add: example_env_def decode_table_def example_call_def)
  have 3: "json_parse ?e (function_arguments ?own) = Inl (ErrorObj ''Unexpected token'')"
    by (simp add: example_env_def decode_table_def example_call_def)
  have st0: "toolCalls ?st = [] \<and> timeSegments ?st \<noteq> [] \<and>
      filter is_tool_segment (timeSegments ?st) = [] \<and> now ?st = 10"
    by (simp add: initial_state_def)
  obtain s1 where s1: "tool_iteration ?e ?ts ?st ([] @ ?ok # []) = Inr s1"
    using tool_iteration_returns [OF nothrow] by blast
  obtain s2 where s2: "tool_iteration ?e ?ts ?st ([] @ ?bad # []) = Inr s2"
    using tool_iteration_returns [OF nothrow] by blast
  note w1 = absent_tool_skipped [where e = ?e and ts = ?ts and tc = ?ok and args = "JObj []"
      and start = 10 and st = ?st and xs = "[]" and ys = "[]" and st' = s1, THEN conjunct1, rule_format, OF 1]
  note w2 = absent_tool_skipped [where e = ?e and ts = ?ts and tc = ?bad
      and err = "ErrorObj ''Unexpected token''"
      and start = 10 and st = ?st and xs = "[]" and ys = "[]" and st' = s2, THEN conjunct2, rule_format, OF 2]
  note w3 = absent_tool_skipped [where e = ?e and ts = ?ts and tc = ?own
      and err = "ErrorObj ''Unexpected token''"
      and start = 10 and st = ?st and xs = "[]" and ys = "[]", THEN conjunct2, rule_format, OF 3]
  have a: "run_tool_call ?e ?ts 10 ?ok = None" using w1 by blast
  have b: "\<exists>st'. tool_iteration ?e ?ts ?st ([] @ ?ok # []) = Inr st' \<and> toolCalls st' = [] \<and>
          filter is_tool_segment (timeSegments st') = []"
    using w1 s1 st0 by auto
  have c: "run_tool_call ?e ?ts 10 ?own =
      Some (failed_execution ?own (ErrorObj ''Unexpected token'') 10 10)"
    using w3 by blast
  have d: "record_success (call_record (failed_execution ?own (ErrorObj ''Unexpected token'') 10 10))
      = False"
    using w3 by blast
  have f: "run_tool_call ?e ?ts 10 ?bad =
      Some (failed_execution ?bad (ErrorObj ''Unexpected token'') 10 10)"
    using w2 by blast
  have g: "\<exists>st'. tool_iteration ?e ?ts ?st ([] @ ?bad # []) = Inr st' \<and>
          map record_name (toolCalls st') = [''ghost''] \<and>
          map record_success (toolCalls st') = [False] \<and>
          map segment_name (filter is_tool_segment (timeSegments st')) = [''ghost'']"
    using w2 s2 st0
    by (auto simp: call_record_def failed_execution_def tool_segment_def example_call_def)
  from a b c d f g show ?thesis by (intro conjI)
qed

text \<open>C8 as stated fails: a call to a tool that the request does not have, with
  arguments that are not JSON, is recorded, with \<open>success\<close> false, and gets a tool
  segment.\<close>

theorem absent_tool_recorded_counterexample:
  "map record_name
     (recorded_calls
        (executeRequest_batch
           (example_env [calling [] [(''ghost'', ''not json'')]] (answering ''done'') [])
           3 (example_request [''lookup'']) 0)) = [''ghost''] \<and>
   map record_success
     (recorded_calls
        (executeRequest_batch
           (example_env [calling [] [(''ghost'', ''not json'')]] (answering ''done'') [])
           3 (example_request [''lookup'']) 0)) = [False] \<and>
   (case executeRequest_batch
           (example_env [calling [] [(''ghost'', ''not json'')]] (answering ''done'') [])
           3 (example_request [''lookup'']) 0 of
      Inl err \<Rightarrow> []
    | Inr r \<Rightarrow> map segment_name (filter is_tool_segment (timing_timeSegments (response_timing r))))
     = [''ghost'']"
  by code_simp

subsection \<open>Token counters\<close>

lemma tokens_le_refl: "tokens_le t t"
  by (simp add: tokens_le_def)

lemma tokens_le_trans: "tokens_le a b \<Longrightarrow> tokens_le b c \<Longrightarrow> tokens_le a c"
  by (auto simp: tokens_le_def)

lemma add_usage_le: "nonneg_usage u \<Longrightarrow> tokens_le t (add_usage t u)"
  by (auto simp: nonneg_usage_def tokens_le_def add_usage_def split: option.splits)

lemma tool_loop_tokens:
  assumes "tool_loop e ts m s0 = Inr s1"
    and "\<forall>ms c d. create e ms = (Inr c, d) \<longrightarrow> nonneg_usage (usage c)"
  shows "tokens_le (tokens s0) (tokens s1)"
proof (rule tool_loop_invariant [OF assms(1), where P = "\<lambda>s. tokens_le (tokens s0) (tokens s)"])
  show "tokens_le (tokens s0) (tokens s0)" by (rule tokens_le_refl)
next
  fix s :: loop_state
  assume "tokens_le (tokens s0) (tokens s)"
  then show "tokens_le (tokens s0)
      (tokens (s\<lparr>content := updated_content (content s) (currentResponse s)\<rparr>))"
    by simp
next
  fix s calls s'
  assume p: "tokens_le (tokens s0) (tokens s)" and it: "tool_iteration e ts s calls = Inr s'"
  from tool_iteration_Inr [OF it] obtain r d where
    "create e (currentMessages s @ AssistantToolCalls calls #
       map tool_message (executed e ts (now s) calls)) = (Inr r, d)"
    and t: "tokens s' = add_usage (tokens s) (usage r)"
    by blast
  with assms(2) have "nonneg_usage (usage r)" by blast
  then have "tokens_le (tokens s) (tokens s')" unfolding t by (rule add_usage_le)
  with p show "tokens_le (tokens s0) (tokens s')" by (rule tokens_le_trans)
qed

text \<open>
  What the code does with the counters. In the tool loop an iteration adds the usage of the completion
  it received to the running counters, so that the counters do not decrease when the
  reported counts are not negative, over one iteration and over the whole loop. On the
  streaming path every update sets the counters to the fields of the latest usage
  object that the upstream has sent, the one of the chunk at hand if it has one: the last
  report wins, and nothing is added.
\<close>

theorem token_counters_accumulate:
  "(tool_iteration e ts st calls = Inr st' \<longrightarrow>
      tokens st' = add_usage (tokens st) (usage (currentResponse st')) \<and>
      (nonneg_usage (usage (currentResponse st')) \<longrightarrow> tokens_le (tokens st) (tokens st'))) \<and>
   ((\<forall>ms c d. create e ms = (Inr c, d) \<longrightarrow> nonneg_usage (usage c)) \<and>
    tool_loop e ts m s0 = Inr s1 \<longrightarrow> tokens_le (tokens s0) (tokens s1)) \<and>
   latest_usage (stream_chunk e request t0 ss chunk wait) =
     (case chunk_usage chunk of None \<Rightarrow> latest_usage ss | Some v \<Rightarrow> v) \<and>
   output_tokens (execution (stream_chunk e request t0 ss chunk wait)) =
     usage_tokens (latest_usage (stream_chunk e request t0 ss chunk wait))"
proof (intro conjI impI)
  assume it: "tool_iteration e ts st calls = Inr st'"
  from tool_iteration_Inr [OF it]
  show t: "tokens st' = add_usage (tokens st) (usage (currentResponse st'))" by auto
  assume "nonneg_usage (usage (currentResponse st'))"
  then show "tokens_le (tokens st) (tokens st')" unfolding t by (rule add_usage_le)
next
  assume "(\<forall>ms c d. create e ms = (Inr c, d) \<longrightarrow> nonneg_usage (usage c)) \<and>
    tool_loop e ts m s0 = Inr s1"
  then show "tokens_le (tokens s0) (tokens s1)"
    using tool_loop_tokens [of e ts m s0 s1] by blast
next
  show "latest_usage (stream_chunk e request t0 ss chunk wait) =
     (case chunk_usage chunk of None \<Rightarrow> latest_usage ss | Some v \<Rightarrow> v)"
    by (simp add: stream_chunk_def Let_def)
  show "output_tokens (execution (stream_chunk e request t0 ss chunk wait)) =
     usage_tokens (latest_usage (stream_chunk e request t0 ss chunk wait))"
    by (simp add: stream_chunk_def onUpdate_def usage_tokens_def Let_def)
qed

theorem token_counters_accumulate_example:
  "response_tokens
     (provider_response_of (example_request [''lookup'']) 0 10
        (initial_state (example_request [''lookup'']) 0 (calling [] [(''lookup'', ''{}'')]) 10)) =
     \<lparr>tokens_input = 5, tokens_output = 7, tokens_total = 12\<rparr> \<and>
   (case executeRequest_batch
           (example_env [calling [] [(''lookup'', ''{}'')]] (answering ''done'')
              [(''lookup'', succeeds (JStr ''v''), 5)])
           3 (example_request [''lookup'']) 0 of
      Inl err \<Rightarrow> None
    | Inr r \<Rightarrow> Some (response_tokens r)) =
     Some \<lparr>tokens_input = 10, tokens_output = 14, tokens_total = 24\<rparr> \<and>
   streamed_tokens
     (executeRequest
        (streaming_env [StreamChunk (text_chunk ''Hi'') 3, StreamChunk (usage_chunk 5 7) 2,
           StreamChunk (usage_chunk 5 9) 2])
        3 streaming_request 0) =
     Some (usage_tokens
       (latest_usage (stream_chunk
          (streaming_env [StreamChunk (text_chunk ''Hi'') 3, StreamChunk (usage_chunk 5 7) 2,
             StreamChunk (usage_chunk 5 9) 2])
          streaming_request 0
          (stream_chunk
             (streaming_env [StreamChunk (text_chunk ''Hi'') 3, StreamChunk (usage_chunk 5 7) 2,
                StreamChunk (usage_chunk 5 9) 2])
             streaming_request 0
             (stream_chunk
                (streaming_env [StreamChunk (text_chunk ''Hi'') 3, StreamChunk (usage_chunk 5 7) 2,
                   StreamChunk (usage_chunk 5 9) 2])
                streaming_request 0 (streaming_start 0 5) (text_chunk ''Hi'') 3)
             (usage_chunk 5 7) 2)
          (usage_chunk 5 9) 2))) \<and>
   streamed_tokens
     (executeRequest
        (streaming_env [StreamChunk (text_chunk ''Hi'') 3, StreamChunk (usage_chunk 5 7) 2,
           StreamChunk (usage_chunk 5 9) 2])
        3 streaming_request 0) =
     Some \<lparr>stream_input = Some 5, stream_output = Some 9, stream_total = Some 14\<rparr>"
proof -
  let ?items = "[StreamChunk (text_chunk ''Hi'') 3, StreamChunk (usage_chunk 5 7) 2,
           StreamChunk (usage_chunk 5 9) 2]"
  let ?e = "streaming_env ?items"
  let ?s2 = "stream_chunk ?e streaming_request 0
             (stream_chunk ?e streaming_request 0 (streaming_start 0 5) (text_chunk ''Hi'') 3)
             (usage_chunk 5 7) 2"
  have run: "executeRequest ?e 3 streaming_request 0 =
      Inr (StreamingExecution (stream_chunk ?e streaming_request 0 ?s2 (usage_chunk 5 9) 2))"
    by (simp add: executeRequest_def streaming_env_def streaming_request_def example_request_def)
  from token_counters_accumulate [where e = ?e and request = streaming_request and ?t0.0 = 0
      and ss = ?s2 and chunk = "usage_chunk 5 9" and wait = 2]
  have st: "output_tokens (execution (stream_chunk ?e streaming_request 0 ?s2 (usage_chunk 5 9) 2)) =
      usage_tokens (latest_usage (stream_chunk ?e streaming_request 0 ?s2 (usage_chunk 5 9) 2))"
    by blast
  have a: "streamed_tokens (executeRequest ?e 3 streaming_request 0) =
      Some (usage_tokens (latest_usage (stream_chunk ?e streaming_request 0 ?s2 (usage_chunk 5 9) 2)))"
    unfolding run by (simp add: streamed_tokens_def st)
  have b: "streamed_tokens (executeRequest ?e 3 streaming_request 0) =
      Some \<lparr>stream_input = Some 5, stream_output = Some 9, stream_total = Some 14\<rparr>"
    by code_simp
  have c: "response_tokens
     (provider_response_of (example_request [''lookup'']) 0 10
        (initial_state (example_request [''lookup'']) 0 (calling [] [(''lookup'', ''{}'')]) 10)) =
     \<lparr>tokens_input = 5, tokens_output = 7, tokens_total = 12\<rparr>"
    by code_simp
  have d: "(case executeRequest_batch
           (example_env [calling [] [(''lookup'', ''{}'')]] (answering ''done'')
              [(''lookup'', succeeds (JStr ''v''), 5)])
           3 (example_request [''lookup'']) 0 of
      Inl err \<Rightarrow> None
    | Inr r \<Rightarrow> Some (response_tokens r)) =
     Some \<lparr>tokens_input = 10, tokens_output = 14, tokens_total = 24\<rparr>"
    by code_simp
  from a b c d show ?thesis by blast
qed

text \<open>
  C9. The counters of a request are to be integers that never decrease. On the
  streaming path they are not: the usage variable of the stream starts as an empty
  object, whose fields the callback copies unguarded (the tool loop guards the same
  reads with \<^verbatim>\<open>|| 0\<close>), so after the update for a chunk that carries no usage, as every
  chunk but the last does, the three counters are undefined, where they were 0 when
  the streaming result was handed out.
\<close>

theorem streamed_counters_undefined:
  "streamed_tokens (executeRequest (streaming_env []) 3 streaming_request 0) =
     Some \<lparr>stream_input = Some 0, stream_output = Some 0, stream_total = Some 0\<rparr> \<and>
   streamed_tokens
     (executeRequest (streaming_env [StreamChunk (text_chunk ''Hi'') 3]) 3 streaming_request 0) =
     Some \<lparr>stream_input = None, stream_output = None, stream_total = None\<rparr>"
  by code_simp

subsection \<open>Empty lists in the returned object\<close>

lemma successful_outputs_Nil: "successful_outputs cs = [] \<longleftrightarrow> \<not> list_ex record_success cs"
  by (auto simp: successful_outputs_def list_ex_iff filter_empty_conv)

text \<open>
  C10. The returned object has \<open>toolCalls\<close> undefined exactly when the list of records is
  empty and \<open>toolResults\<close> undefined exactly when the list of outputs is empty, and the
  list itself otherwise: neither field is ever an empty list. In a returned result
  \<open>toolResults\<close> is undefined exactly when no record has \<open>success\<close> true.
\<close>

theorem empty_lists_omitted:
  "response_toolCalls (provider_response_of request t0 f st) =
     (if toolCalls st = [] then None else Some (toolCalls st)) \<and>
   response_toolResults (provider_response_of request t0 f st) =
     (if toolResults st = [] then None else Some (toolResults st)) \<and>
   (executeRequest_batch e m request t0 = Inr r \<longrightarrow>
      response_toolCalls r \<noteq> Some [] \<and> response_toolResults r \<noteq> Some [] \<and>
      (response_toolCalls r = None) = (recorded_calls (Inr r) = []) \<and>
      (response_toolResults r = None) = (\<not> list_ex record_success (recorded_calls (Inr r))))"
proof (intro conjI impI)
  show "response_toolCalls (provider_response_of request t0 f st) =
     (if toolCalls st = [] then None else Some (toolCalls st))"
    by (simp add: provider_response_of_def Let_def)
  show "response_toolResults (provider_response_of request t0 f st) =
     (if toolResults st = [] then None else Some (toolResults st))"
    by (simp add: provider_response_of_def Let_def)
next
  assume a: "executeRequest_batch e m request t0 = Inr r"
  from executeRequest_batch_results [OF a] obtain s :: loop_state where
    rc: "recorded_calls (Inr r) = toolCalls s"
    and tc: "response_toolCalls r = (if toolCalls s = [] then None else Some (toolCalls s))"
    and tr: "response_toolResults r =
       (if successful_outputs (toolCalls s) = [] then None
        else Some (successful_outputs (toolCalls s)))"
    by blast
  from tc show "response_toolCalls r \<noteq> Some []" by (simp split: if_splits)
  from tr show "response_toolResults r \<noteq> Some []" by (simp split: if_splits)
  from tc rc show "(response_toolCalls r = None) = (recorded_calls (Inr r) = [])"
    by (simp split: if_splits)
  from tr rc show "(response_toolResults r = None) =
      (\<not> list_ex record_success (recorded_calls (Inr r)))"
    by (simp add: successful_outputs_Nil split: if_splits)
qed

theorem empty_lists_omitted_witness:
  "(case executeRequest_batch (example_env [] (answering ''done'') []) 3 (example_request []) 0 of
      Inl err \<Rightarrow> False
    | Inr r \<Rightarrow> response_toolCalls r = None \<and> response_toolResults r = None) \<and>
   (case executeRequest_batch
           (example_env [calling [] [(''a'', ''{}'')]] (answering ''done'')
              [(''a'', Inl (ErrorObj ''boom''), 3)])
           3 (example_request [''a'']) 0 of
      Inl err \<Rightarrow> False
    | Inr r \<Rightarrow> map record_name (recorded_calls (Inr r)) = [''a''] \<and>
               response_toolCalls r \<noteq> Some [] \<and> response_toolResults r = None)"
proof -
  let ?e = "example_env [calling [] [(''a'', ''{}'')]] (answering ''done'')
              [(''a'', Inl (ErrorObj ''boom''), 3)]"
  let ?q = "example_request [''a'']"
  obtain r where r: "executeRequest_batch ?e 3 ?q 0 = Inr r"
    by (cases "executeRequest_batch ?e 3 ?q 0") (simp_all, code_simp)
  have n: "map record_name (recorded_calls (executeRequest_batch ?e 3 ?q 0)) = [''a'']"
    by code_simp
  have s: "\<not> list_ex record_success (recorded_calls (executeRequest_batch ?e 3 ?q 0))"
    by code_simp
  from empty_lists_omitted [of ?q 0 0 "initial_state ?q 0 (answering []) 0" ?e 3 r] r
  have "response_toolCalls r \<noteq> Some []"
    and "(response_toolResults r = None) = (\<not> list_ex record_success (recorded_calls (Inr r)))"
    by blast+
  with r n s have 2: "(case executeRequest_batch ?e 3 ?q 0 of
      Inl err \<Rightarrow> False
    | Inr r \<Rightarrow> map record_name (recorded_calls (Inr r)) = [''a''] \<and>
               response_toolCalls r \<noteq> Some [] \<and> response_toolResults r = None)"
    by simp
  have 1: "(case executeRequest_batch (example_env [] (answering ''done'') []) 3 (example_request []) 0 of
      Inl err \<Rightarrow> False
    | Inr r \<Rightarrow> response_toolCalls r = None \<and> response_toolResults r = None)"
    by code_simp
  from 1 2 show ?thesis by blast
qed
end
